theory Spec2Isabelle
  imports Main
begin

section \<open>JavaScript strings and numbers used by app.js\<close>

text \<open>
  Strings are lists of characters; the length of a string is its number of characters. The
  model is exact for ASCII text. Numbers are integers (\<open>int\<close> or \<open>nat\<close>).
\<close>

definition digit_char :: "nat \<Rightarrow> char" where
  "digit_char d = ''0123456789'' ! d"

definition is_digit :: "char \<Rightarrow> bool" where
  "is_digit c = (c \<in> set ''0123456789'')"

text \<open>Decimal digits of a non-negative integer, most significant first.\<close>

fun digits :: "nat \<Rightarrow> string" where
  "digits n = (if n < 10 then [digit_char n] else digits (n div 10) @ [digit_char (n mod 10)])"

declare digits.simps [simp del]

text \<open>\<open>Number.prototype.toString()\<close> and the template-literal conversion, on integers.\<close>

definition toString :: "int \<Rightarrow> string" where
  "toString i = (if i < 0 then CHR ''-'' # digits (nat (- i)) else digits (nat i))"

text \<open>\<open>String.prototype.padStart(n, c)\<close> with a one-character filler.\<close>

definition padStart :: "nat \<Rightarrow> char \<Rightarrow> string \<Rightarrow> string" where
  "padStart n c s = replicate (n - length s) c @ s"

text \<open>Reading a string of decimal digits back as a number.\<close>

definition digit_val :: "char \<Rightarrow> nat" where
  "digit_val c = of_char c - 48"

definition digits_val :: "string \<Rightarrow> nat" where
  "digits_val s = foldl (\<lambda>a c. 10 * a + digit_val c) 0 s"

text \<open>\<open>String.prototype.toLowerCase()\<close> on ASCII text.\<close>

definition lower_char :: "char \<Rightarrow> char" where
  "lower_char c =
     (case map_of (zip ''ABCDEFGHIJKLMNOPQRSTUVWXYZ'' ''abcdefghijklmnopqrstuvwxyz'') c of
        None \<Rightarrow> c
      | Some l \<Rightarrow> l)"

definition toLowerCase :: "string \<Rightarrow> string" where
  "toLowerCase s = map lower_char s"

section \<open>Helpers (app.js, lines 124-134)\<close>

text \<open>
  \<open>genCaseId\<close> reads the clock and draws a random number. Both are inputs of the model:
  \<open>y\<close> is \<open>now.getFullYear()\<close> and \<open>r\<close> is \<open>Math.floor(Math.random()*1e6)\<close>, a
  natural number below one million because \<open>Math.random()\<close> is below 1.
\<close>

definition genCaseId :: "int \<Rightarrow> nat \<Rightarrow> string" where
  "genCaseId y r = ''REP'' @ toString y @ padStart 6 CHR ''0'' (toString (int r))"

text \<open>The pattern \<open>REP\d{4}\d{6}\<close>, matched against the whole string.\<close>

definition matches_case_pattern :: "string \<Rightarrow> bool" where
  "matches_case_pattern s =
     (length s = 13 \<and> take 3 s = ''REP'' \<and> list_all is_digit (drop 3 s))"

section \<open>Request data\<close>

text \<open>
  A value of \<open>req.body\<close> or \<open>req.query\<close>. The JSON parser and the extended urlencoded parser
  (lines 80-81) and multer deliver strings, numbers, booleans, \<open>null\<close>, arrays and objects;
  a field that is absent reads as \<open>undefined\<close>. Numbers are integers here, and an object is
  the list of its fields in the order in which \<open>for ... in\<close> visits them. The body itself is
  the object that maps field names to values.
\<close>

datatype jsval =
    Undefined
  | Null
  | Bool bool
  | Num int
  | Str string
  | Arr "jsval list"
  | Obj "(string \<times> jsval) list"

type_synonym body = "string \<Rightarrow> jsval"

text \<open>JavaScript truthiness, as \<open>!x\<close> and \<open>x || null\<close> test it.\<close>

fun truthy :: "jsval \<Rightarrow> bool" where
  "truthy Undefined = False"
| "truthy Null = False"
| "truthy (Bool b) = b"
| "truthy (Num n) = (n \<noteq> 0)"
| "truthy (Str s) = (s \<noteq> [])"
| "truthy (Arr vs) = True"
| "truthy (Obj kvs) = True"

text \<open>The value of \<open>x || null\<close>.\<close>

definition or_null :: "jsval \<Rightarrow> jsval" where
  "or_null x = (if truthy x then x else Null)"

text \<open>
  The string that a template literal or \<open>encodeURIComponent\<close> makes of a value: an array is
  its elements joined by commas, with nothing for \<open>null\<close> and \<open>undefined\<close> elements.
\<close>

fun join_commas :: "string list \<Rightarrow> string" where
  "join_commas [] = []"
| "join_commas [s] = s"
| "join_commas (s # t # ss) = s @ '','' @ join_commas (t # ss)"

fun js_string :: "jsval \<Rightarrow> string" where
  "js_string Undefined = ''undefined''"
| "js_string Null = ''null''"
| "js_string (Bool b) = (if b then ''true'' else ''false'')"
| "js_string (Num n) = toString n"
| "js_string (Str s) = s"
| "js_string (Arr vs) =
     join_commas (map (\<lambda>v. if v = Undefined \<or> v = Null then [] else js_string v) vs)"
| "js_string (Obj kvs) = ''[object Object]''"

text \<open>An uploaded file as multer sees it: the client's file name and the number of bytes.\<close>

record upload =
  originalname :: string
  size :: nat

datatype json =
    JNull
  | JBool bool
  | JNum int
  | JStr string
  | JArr "json list"
  | JObj "(string \<times> json) list"

text \<open>
  What a handler sends: \<open>res.status(n).json(v)\<close>, \<open>res.status(n).send(s)\<close>,
  \<open>res.render(view, options)\<close>, \<open>res.redirect(url)\<close> with the url it is given, or the page
  of Express's own error handler when a middleware passes an error on.
\<close>

datatype response =
    Json nat json
  | Send nat string
  | Render string "(string \<times> json) list"
  | Redirect string
  | ErrorPage nat

datatype error =
    ER_DUP_ENTRY
  | ER_BAD_NULL_ERROR
  | ER_DATA_TOO_LONG
  | WARN_DATA_TRUNCATED
  | ER_PARSE_ERROR
  | ER_WRONG_VALUE_COUNT_ON_ROW
  | ER_OPERAND_COLUMNS
  | ER_BAD_FIELD_ERROR
  | ER_TRUNCATED_WRONG_VALUE
  | ER_OTHER
  | StoreFault
  | PoolError
  | BcryptError
  | Error string
  | LIMIT_FILE_SIZE

text \<open>
  How a request ends: with a response; with the handler's promise rejected before any
  response was sent; or still queued for a pool connection.
\<close>

datatype reply = Reply response | Rejected error | Pending

text \<open>The first error stops a sequence of steps.\<close>

definition and_then :: "error + 'a \<Rightarrow> ('a \<Rightarrow> error + 'b) \<Rightarrow> error + 'b" where
  "and_then x f = (case x of Inl err \<Rightarrow> Inl err | Inr v \<Rightarrow> f v)"

fun collect :: "(error + 'a) list \<Rightarrow> error + 'a list" where
  "collect [] = Inr []"
| "collect (x # xs) =
     (case x of
        Inl err \<Rightarrow> Inl err
      | Inr v \<Rightarrow> (case collect xs of Inl err \<Rightarrow> Inl err | Inr vs \<Rightarrow> Inr (v # vs)))"

section \<open>Statement parameters\<close>

text \<open>
  \<open>conn.query(sql, values)\<close> puts \<open>SqlString.escape(value)\<close> in the place of each \<open>?\<close>. The
  text it puts there is a list of items separated by commas:
  \<^item> \<open>undefined\<close> and \<open>null\<close> give \<open>NULL\<close>, a boolean \<open>true\<close> or \<open>false\<close>, a number its
    digits, a string the quoted string: one literal;
  \<^item> an array gives one item for each element (\<open>arrayToList\<close>): a nested array is a list in
    parentheses, an object inside an array is the string \<open>[object Object]\<close>;
  \<^item> an object gives \<open>key = value\<close> for each field (\<open>objectToValues\<close>), where the value is
    escaped like an array element, except that an array value is written without
    parentheses, so that its further elements follow the pair as items of their own.
\<close>

datatype sql_lit = SqlNull | SqlBool bool | SqlNum int | SqlText string

datatype sql_item =
    Lit sql_lit
  | Group "sql_item list"
  | KeyEq string "sql_item option"

fun elem_item :: "jsval \<Rightarrow> sql_item" where
  "elem_item Undefined = Lit SqlNull"
| "elem_item Null = Lit SqlNull"
| "elem_item (Bool b) = Lit (SqlBool b)"
| "elem_item (Num n) = Lit (SqlNum n)"
| "elem_item (Str s) = Lit (SqlText s)"
| "elem_item (Arr vs) = Group (map elem_item vs)"
| "elem_item (Obj kvs) = Lit (SqlText ''[object Object]'')"

definition value_items :: "jsval \<Rightarrow> sql_item list" where
  "value_items v = (case v of Arr vs \<Rightarrow> map elem_item vs | _ \<Rightarrow> [elem_item v])"

definition pair_items :: "string \<times> jsval \<Rightarrow> sql_item list" where
  "pair_items kv =
     (case value_items (snd kv) of
        [] \<Rightarrow> [KeyEq (fst kv) None]
      | i # rest \<Rightarrow> KeyEq (fst kv) (Some i) # rest)"

definition escape :: "jsval \<Rightarrow> sql_item list" where
  "escape v =
     (case v of
        Arr vs \<Rightarrow> map elem_item vs
      | Obj kvs \<Rightarrow> concat (map pair_items kvs)
      | _ \<Rightarrow> [elem_item v])"

text \<open>
  An item is well formed as an expression when every list in parentheses has one element
  (\<open>()\<close> does not parse, and a longer list is a row where one value is expected) and every
  pair has a right-hand side.
\<close>

fun well_formed :: "sql_item \<Rightarrow> bool" where
  "well_formed (Lit l) = True"
| "well_formed (Group []) = False"
| "well_formed (Group [i]) = well_formed i"
| "well_formed (Group (i # j # rest)) = False"
| "well_formed (KeyEq k None) = False"
| "well_formed (KeyEq k (Some i)) = well_formed i"

text \<open>
  The value of an item as an expression. \<open>key = value\<close> is a comparison of the column
  \<open>key\<close> with the value; \<open>cmp\<close> performs it.
\<close>

fun item_value :: "(string \<Rightarrow> sql_lit \<Rightarrow> error + sql_lit) \<Rightarrow> sql_item \<Rightarrow> error + sql_lit" where
  "item_value cmp (Lit l) = Inr l"
| "item_value cmp (Group []) = Inl ER_PARSE_ERROR"
| "item_value cmp (Group [i]) = item_value cmp i"
| "item_value cmp (Group (i # j # rest)) = Inl ER_OPERAND_COLUMNS"
| "item_value cmp (KeyEq k None) = Inl ER_PARSE_ERROR"
| "item_value cmp (KeyEq k (Some i)) =
     (case item_value cmp i of Inl err \<Rightarrow> Inl err | Inr x \<Rightarrow> cmp k x)"

section \<open>The store (app.js, lines 14-59)\<close>

datatype status = NEW | UNDER_REVIEW | VERIFIED | ACTION_TAKEN | CLOSED

fun status_name :: "status \<Rightarrow> string" where
  "status_name NEW = ''NEW''"
| "status_name UNDER_REVIEW = ''UNDER_REVIEW''"
| "status_name VERIFIED = ''VERIFIED''"
| "status_name ACTION_TAKEN = ''ACTION_TAKEN''"
| "status_name CLOSED = ''CLOSED''"

definition members :: "status list" where
  "members = [NEW, UNDER_REVIEW, VERIFIED, ACTION_TAKEN, CLOSED]"

text \<open>
  A row of table \<open>reports\<close>. A nullable column is an option; \<open>location\<close> and
  \<open>issue_type\<close> are \<open>NOT NULL\<close>. Column \<open>id\<close> is named \<open>report_id\<close> here, and
  \<open>created_at\<close> is a number of seconds.

  The store is modelled as the schema declares it and as a server with its defaults enforces
  it. In the default, strict SQL mode a value longer than its column, \<open>NULL\<close> in a
  \<open>NOT NULL\<close> column, a second row with the same non-null \<open>case_id\<close> and a value that the
  \<open>ENUM\<close> column does not accept are errors of the statement, which then changes nothing.
  No column names a collation, so the server's default one compares the strings of the
  character columns, without regard to letter case.
\<close>

record report =
  report_id :: nat
  case_id :: "string option"
  citizen_name :: "string option"
  email :: "string option"
  phone :: "string option"
  image_path :: "string option"
  location :: string
  description :: "string option"
  issue_type :: string
  status :: "status option"
  created_at :: nat

datatype column =
    C_id
  | C_case_id
  | C_citizen_name
  | C_email
  | C_phone
  | C_image_path
  | C_location
  | C_description
  | C_issue_type
  | C_status
  | C_created_at

definition column_names :: "(string \<times> column) list" where
  "column_names =
     [(''id'', C_id), (''case_id'', C_case_id), (''citizen_name'', C_citizen_name),
      (''email'', C_email), (''phone'', C_phone), (''image_path'', C_image_path),
      (''location'', C_location), (''description'', C_description),
      (''issue_type'', C_issue_type), (''status'', C_status), (''created_at'', C_created_at)]"

text \<open>A row of table \<open>admin_users\<close>.\<close>

record admin_user =
  admin_id :: nat
  username :: "string option"
  password_hash :: string
  role :: "string option"
  admin_created_at :: nat

text \<open>What \<open>req.session.user\<close> holds after a login: id, username and role.\<close>

type_synonym session_user = "nat \<times> string option \<times> string option"

text \<open>
  The state the handlers share: the two tables with their \<open>AUTO_INCREMENT\<close> counters, the
  session store keyed by session id, and the number of pool connections that are checked out.
  \<open>CREATE ... IF NOT EXISTS\<close> leaves existing tables alone, so a table that does not exist
  yet is the empty list. The files in the upload directory are not part of this state.
\<close>

record world =
  reports :: "report list"
  reports_auto_inc :: nat
  admin_users :: "admin_user list"
  admin_auto_inc :: nat
  sessions :: "string \<rightharpoonup> session_user"
  held :: nat

text \<open>
  What a request reads from outside the program: the clock's year and the floored random
  draw of \<open>genCaseId\<close>, the store's \<open>CURRENT_TIMESTAMP\<close>, \<open>Date.now()\<close> and the rounded
  random draw of the upload's file name, whether \<open>pool.getConnection()\<close> rejects, whether
  the \<open>k\<close>-th statement of the operation is rejected for a reason outside the program (the
  database is gone, the connection is lost), and bcrypt.

  The last nine fields are answers of the store that the model does not compute; they are
  taken as the store gives them:
  \<^item> \<open>collate a b\<close>: whether the default collation takes the different strings \<open>a\<close> and
    \<open>b\<close> for equal, when one of them has a character other than an ASCII letter, a digit
    or an underscore (the default collations differ on accents and on trailing spaces);
  \<^item> \<open>odd_enum s\<close>: what the \<open>ENUM\<close> column stores for such a string, for a numeral with
    the value 0 and for a numeral from 1 to 5 written with more than one digit;
  \<^item> \<open>odd_id_error s rows\<close>: whether the \<open>UPDATE\<close> is rejected because its id parameter
    \<open>s\<close> is not a decimal numeral (in strict SQL mode the conversion of such a string to a
    number can be an error of an \<open>UPDATE\<close>);
  \<^item> \<open>sql_compare c x y\<close>: the comparison \<open>column = value\<close> for column \<open>c\<close> holding \<open>x\<close>, when
    neither side is \<open>NULL\<close>;
  \<^item> \<open>insert_expr k x\<close>: the expression \<open>k = x\<close> in the value list of an \<open>INSERT\<close>;
  \<^item> \<open>odd_assign c x rows r\<close>: row \<open>r\<close> after the assignment of \<open>x\<close> to one of the columns
    \<open>id\<close>, \<open>case_id\<close>, \<open>created_at\<close> in an \<open>UPDATE\<close>;
  \<^item> \<open>odd_key k\<close>: the column that a key with a dot in it (a qualified name) denotes;
  \<^item> \<open>odd_id s n\<close>: whether \<open>id = s\<close> holds of the id \<open>n\<close> for a parameter \<open>s\<close> that is not a
    decimal numeral;
  \<^item> \<open>odd_select i users\<close>: the rows with \<open>username = i\<close> for a parameter that is neither a
    string nor \<open>NULL\<close>.
\<close>

record env =
  year :: int
  rnd :: nat
  clock :: nat
  upload_stamp :: nat
  upload_rnd :: nat
  pool_error :: bool
  db_fault :: "nat \<Rightarrow> bool"
  bcrypt_compare :: "string \<Rightarrow> string \<Rightarrow> bool"
  bcrypt_hash :: "string \<Rightarrow> string"
  sql_compare :: "column \<Rightarrow> sql_lit \<Rightarrow> sql_lit \<Rightarrow> error + sql_lit"
  insert_expr :: "string \<Rightarrow> sql_lit \<Rightarrow> error + sql_lit"
  odd_assign :: "column \<Rightarrow> sql_lit \<Rightarrow> report list \<Rightarrow> report \<Rightarrow> error + report"
  odd_key :: "string \<Rightarrow> column option"
  odd_id :: "string \<Rightarrow> nat \<Rightarrow> bool"
  odd_select :: "sql_item \<Rightarrow> admin_user list \<Rightarrow> error + admin_user list"
  collate :: "string \<Rightarrow> string \<Rightarrow> bool"
  odd_enum :: "string \<Rightarrow> error + status option"
  odd_id_error :: "string \<Rightarrow> report list \<Rightarrow> bool"

definition connectionLimit :: nat where
  "connectionLimit = 10"

text \<open>
  \<open>pool.getConnection()\<close> with \<open>waitForConnections: true\<close> and \<open>queueLimit: 0\<close>: the caller
  waits while all connections are checked out.
\<close>

definition getConnection :: "env \<Rightarrow> world \<Rightarrow> reply + world" where
  "getConnection e w =
     (if pool_error e then Inl (Rejected PoolError)
      else if connectionLimit \<le> held w then Inl Pending
      else Inr (w\<lparr>held := Suc (held w)\<rparr>))"

definition release :: "world \<Rightarrow> world" where
  "release w = w\<lparr>held := held w - 1\<rparr>"

text \<open>
  Equality of strings under the default collation: a string equals itself, and strings of
  ASCII letters, digits and underscores are equal when they differ in letter case only.
\<close>

definition plain_char :: "char \<Rightarrow> bool" where
  "plain_char c =
     (c \<in> set ''ABCDEFGHIJKLMNOPQRSTUVWXYZabcdefghijklmnopqrstuvwxyz0123456789_'')"

definition plain :: "string \<Rightarrow> bool" where
  "plain s = list_all plain_char s"

definition ci_eq :: "env \<Rightarrow> string \<Rightarrow> string \<Rightarrow> bool" where
  "ci_eq e a b =
     (a = b \<or> (if plain a \<and> plain b then toLowerCase a = toLowerCase b else collate e a b))"

text \<open>\<open>column = 'c'\<close> for a nullable character column: never true of \<open>NULL\<close>.\<close>

definition matches :: "env \<Rightarrow> string \<Rightarrow> string option \<Rightarrow> bool" where
  "matches e c v = (case v of None \<Rightarrow> False | Some x \<Rightarrow> ci_eq e x c)"

text \<open>What a character column stores for a literal: a number as its digits.\<close>

fun text_of_lit :: "sql_lit \<Rightarrow> string option" where
  "text_of_lit SqlNull = None"
| "text_of_lit (SqlBool b) = Some (if b then ''1'' else ''0'')"
| "text_of_lit (SqlNum n) = Some (toString n)"
| "text_of_lit (SqlText s) = Some s"

text \<open>A value fits a \<open>VARCHAR(n)\<close> column.\<close>

definition fits :: "nat \<Rightarrow> string option \<Rightarrow> bool" where
  "fits n v = (case v of None \<Rightarrow> True | Some s \<Rightarrow> length s \<le> n)"

text \<open>
  What the \<open>ENUM\<close> column stores for a literal: \<open>NULL\<close> as \<open>NULL\<close>; a number from 1 to 5 as
  the member with that index (\<open>true\<close> is 1, \<open>false\<close> is 0); a string as the member whose
  name it is, in any letter case, and otherwise, when it is one of the digits 1 to 5, as the
  member with that index. Another number, a numeral above 5 and a string of letters, digits
  and underscores that is neither a name nor a numeral are rejected.
\<close>

definition is_numeral :: "string \<Rightarrow> bool" where
  "is_numeral s = (s \<noteq> [] \<and> list_all is_digit s)"

definition member_at :: "int \<Rightarrow> error + status option" where
  "member_at n =
     (if 1 \<le> n \<and> n \<le> 5 then Inr (Some (members ! nat (n - 1))) else Inl WARN_DATA_TRUNCATED)"

fun enum_of_lit :: "env \<Rightarrow> sql_lit \<Rightarrow> error + status option" where
  "enum_of_lit e SqlNull = Inr None"
| "enum_of_lit e (SqlBool b) = member_at (if b then 1 else 0)"
| "enum_of_lit e (SqlNum n) = member_at n"
| "enum_of_lit e (SqlText s) =
     (if \<not> plain s then odd_enum e s
      else
        (case filter (\<lambda>m. toLowerCase (status_name m) = toLowerCase s) members of
           m # _ \<Rightarrow> Inr (Some m)
         | [] \<Rightarrow>
             if \<not> is_numeral s then Inl WARN_DATA_TRUNCATED
             else if 5 < digits_val s then Inl WARN_DATA_TRUNCATED
             else if length s = 1 \<and> 0 < digits_val s then member_at (int (digits_val s))
             else odd_enum e s))"

text \<open>
  The value of one parameter where the statement expects one expression: no item does not
  parse, and several items are several values.
\<close>

definition param_value :: "(string \<Rightarrow> sql_lit \<Rightarrow> error + sql_lit) \<Rightarrow> jsval \<Rightarrow> error + sql_lit" where
  "param_value cmp v =
     (case escape v of
        [] \<Rightarrow> Inl ER_PARSE_ERROR
      | [i] \<Rightarrow> item_value cmp i
      | i # j # rest \<Rightarrow> Inl ER_WRONG_VALUE_COUNT_ON_ROW)"

text \<open>
  The row that the eight values of the \<open>INSERT\<close> make, with the checks of the columns:
  \<open>id\<close>, \<open>status\<close> and \<open>created_at\<close> take their defaults.
\<close>

definition store_row :: "env \<Rightarrow> nat \<Rightarrow> sql_lit list \<Rightarrow> world \<Rightarrow> error + world" where
  "store_row e now vs w =
     (case map text_of_lit vs of
        [cid, cname, em, ph, img, loc, descr, ity] \<Rightarrow>
          (case loc of None \<Rightarrow> Inl ER_BAD_NULL_ERROR | Some l \<Rightarrow>
           (case ity of None \<Rightarrow> Inl ER_BAD_NULL_ERROR | Some t \<Rightarrow>
             if \<not> (fits 32 cid \<and> fits 100 cname \<and> fits 120 em \<and> fits 20 ph \<and> fits 255 img
                   \<and> length l \<le> 255 \<and> fits 65535 descr \<and> length t \<le> 32)
             then Inl ER_DATA_TOO_LONG
             else if (case cid of None \<Rightarrow> False
                      | Some c \<Rightarrow> \<exists>r \<in> set (reports w). matches e c (case_id r))
             then Inl ER_DUP_ENTRY
             else Inr (w\<lparr>reports := reports w @
                         [\<lparr>report_id = reports_auto_inc w, case_id = cid, citizen_name = cname,
                           email = em, phone = ph, image_path = img, location = l,
                           description = descr, issue_type = t, status = Some NEW,
                           created_at = now\<rparr>],
                       reports_auto_inc := Suc (reports_auto_inc w)\<rparr>)))
      | _ \<Rightarrow> Inl ER_WRONG_VALUE_COUNT_ON_ROW)"

text \<open>
  \<open>INSERT INTO reports (case_id, citizen_name, email, phone, image_path, location,
  description, issue_type) VALUES (?,?,?,?,?,?,?,?)\<close> at time \<open>now\<close> with the eight
  parameters \<open>ps\<close>.
\<close>

definition insert_report :: "env \<Rightarrow> nat \<Rightarrow> jsval list \<Rightarrow> world \<Rightarrow> error + world" where
  "insert_report e now ps w =
     and_then (collect (map (param_value (insert_expr e)) ps)) (\<lambda>vs. store_row e now vs w)"

text \<open>
  \<open>SELECT ... FROM reports WHERE case_id = ?\<close> for a route parameter, which is a string.
\<close>

definition select_by_case_id :: "env \<Rightarrow> string \<Rightarrow> report list \<Rightarrow> report list" where
  "select_by_case_id e c rows = filter (\<lambda>r. matches e c (case_id r)) rows"

text \<open>
  \<open>id = ?\<close> for a route parameter: the store compares the number that the string denotes.
  The model computes it for a decimal numeral.
\<close>

definition id_matches :: "env \<Rightarrow> string \<Rightarrow> nat \<Rightarrow> bool" where
  "id_matches e s n = (if is_numeral s then n = digits_val s else odd_id e s n)"

definition select_by_id :: "env \<Rightarrow> string \<Rightarrow> report list \<Rightarrow> report list" where
  "select_by_id e s rows = filter (\<lambda>r. id_matches e s (report_id r)) rows"

text \<open>
  \<open>UPDATE reports SET status=? WHERE id=?\<close>. With the items \<open>first, rest\<close> of the status
  parameter the statement reads \<open>SET status=first, rest\<close>. So \<open>first\<close> is the expression
  assigned to \<open>status\<close>, and every further item has to be an assignment: only the pairs of
  an object are. The statement is rejected before it runs when it does not parse or names a
  column that does not exist, and it may be rejected for an id parameter that is not a
  decimal numeral. It then converts and assigns row by row, from left to right, so that a
  statement that matches no row succeeds whatever the values are.
\<close>

definition column_of_key :: "env \<Rightarrow> string \<Rightarrow> column option" where
  "column_of_key e k =
     (if CHR ''.'' \<in> set k then odd_key e k
      else map_of (map (\<lambda>(n, c). (toLowerCase n, c)) column_names) (toLowerCase k))"

fun column_value :: "column \<Rightarrow> report \<Rightarrow> sql_lit" where
  "column_value C_id r = SqlNum (int (report_id r))"
| "column_value C_case_id r = (case case_id r of None \<Rightarrow> SqlNull | Some s \<Rightarrow> SqlText s)"
| "column_value C_citizen_name r =
     (case citizen_name r of None \<Rightarrow> SqlNull | Some s \<Rightarrow> SqlText s)"
| "column_value C_email r = (case email r of None \<Rightarrow> SqlNull | Some s \<Rightarrow> SqlText s)"
| "column_value C_phone r = (case phone r of None \<Rightarrow> SqlNull | Some s \<Rightarrow> SqlText s)"
| "column_value C_image_path r =
     (case image_path r of None \<Rightarrow> SqlNull | Some s \<Rightarrow> SqlText s)"
| "column_value C_location r = SqlText (location r)"
| "column_value C_description r =
     (case description r of None \<Rightarrow> SqlNull | Some s \<Rightarrow> SqlText s)"
| "column_value C_issue_type r = SqlText (issue_type r)"
| "column_value C_status r =
     (case status r of None \<Rightarrow> SqlNull | Some st \<Rightarrow> SqlText (status_name st))"
| "column_value C_created_at r = SqlNum (int (created_at r))"

text \<open>\<open>k = x\<close> as an expression over row \<open>r\<close>: a comparison with \<open>NULL\<close> is \<open>NULL\<close>.\<close>

definition compare_column :: "env \<Rightarrow> report \<Rightarrow> string \<Rightarrow> sql_lit \<Rightarrow> error + sql_lit" where
  "compare_column e r k x =
     (case column_of_key e k of
        None \<Rightarrow> Inl ER_BAD_FIELD_ERROR
      | Some c \<Rightarrow>
          if column_value c r = SqlNull \<or> x = SqlNull then Inr SqlNull
          else sql_compare e c (column_value c r) x)"

text \<open>The assignment of a value to a nullable or a \<open>NOT NULL\<close> character column.\<close>

definition nullable_text :: "nat \<Rightarrow> sql_lit \<Rightarrow> error + string option" where
  "nullable_text n x =
     (if fits n (text_of_lit x) then Inr (text_of_lit x) else Inl ER_DATA_TOO_LONG)"

definition required_text :: "nat \<Rightarrow> sql_lit \<Rightarrow> error + string" where
  "required_text n x =
     (case text_of_lit x of
        None \<Rightarrow> Inl ER_BAD_NULL_ERROR
      | Some s \<Rightarrow> if length s \<le> n then Inr s else Inl ER_DATA_TOO_LONG)"

fun assign_column ::
  "env \<Rightarrow> column \<Rightarrow> sql_lit \<Rightarrow> report list \<Rightarrow> report \<Rightarrow> error + report" where
  "assign_column e C_citizen_name x rows r =
     and_then (nullable_text 100 x) (\<lambda>v. Inr (r\<lparr>citizen_name := v\<rparr>))"
| "assign_column e C_email x rows r =
     and_then (nullable_text 120 x) (\<lambda>v. Inr (r\<lparr>email := v\<rparr>))"
| "assign_column e C_phone x rows r =
     and_then (nullable_text 20 x) (\<lambda>v. Inr (r\<lparr>phone := v\<rparr>))"
| "assign_column e C_image_path x rows r =
     and_then (nullable_text 255 x) (\<lambda>v. Inr (r\<lparr>image_path := v\<rparr>))"
| "assign_column e C_location x rows r =
     and_then (required_text 255 x) (\<lambda>v. Inr (r\<lparr>location := v\<rparr>))"
| "assign_column e C_description x rows r =
     and_then (nullable_text 65535 x) (\<lambda>v. Inr (r\<lparr>description := v\<rparr>))"
| "assign_column e C_issue_type x rows r =
     and_then (required_text 32 x) (\<lambda>v. Inr (r\<lparr>issue_type := v\<rparr>))"
| "assign_column e C_status x rows r =
     and_then (enum_of_lit e x) (\<lambda>v. Inr (r\<lparr>status := v\<rparr>))"
| "assign_column e C_id x rows r = odd_assign e C_id x rows r"
| "assign_column e C_case_id x rows r = odd_assign e C_case_id x rows r"
| "assign_column e C_created_at x rows r = odd_assign e C_created_at x rows r"

text \<open>One further item of the \<open>SET\<close> list, applied to a row.\<close>

fun assign_item :: "env \<Rightarrow> report list \<Rightarrow> sql_item \<Rightarrow> report \<Rightarrow> error + report" where
  "assign_item e rows (KeyEq k (Some i)) r =
     (case column_of_key e k of
        None \<Rightarrow> Inl ER_BAD_FIELD_ERROR
      | Some c \<Rightarrow> and_then (item_value (compare_column e r) i) (\<lambda>x. assign_column e c x rows r))"
| "assign_item e rows (KeyEq k None) r = Inl ER_PARSE_ERROR"
| "assign_item e rows (Lit l) r = Inl ER_PARSE_ERROR"
| "assign_item e rows (Group is) r = Inl ER_PARSE_ERROR"

fun assign_items :: "env \<Rightarrow> report list \<Rightarrow> sql_item list \<Rightarrow> report \<Rightarrow> error + report" where
  "assign_items e rows [] r = Inr r"
| "assign_items e rows (i # rest) r =
     and_then (assign_item e rows i r) (assign_items e rows rest)"

text \<open>The whole \<open>SET\<close> list, applied to a row.\<close>

definition set_row ::
  "env \<Rightarrow> report list \<Rightarrow> sql_item \<Rightarrow> sql_item list \<Rightarrow> report \<Rightarrow> error + report" where
  "set_row e rows first rest r =
     and_then (item_value (compare_column e r) first) (\<lambda>x.
     and_then (enum_of_lit e x) (\<lambda>st.
     assign_items e rows rest (r\<lparr>status := st\<rparr>)))"

text \<open>Whether the \<open>SET\<close> list parses, and whether its column names exist.\<close>

fun is_assignment :: "sql_item \<Rightarrow> bool" where
  "is_assignment (KeyEq k (Some i)) = well_formed i"
| "is_assignment (KeyEq k None) = False"
| "is_assignment (Lit l) = False"
| "is_assignment (Group is) = False"

fun keys_of :: "sql_item \<Rightarrow> string list" where
  "keys_of (KeyEq k i) = [k]"
| "keys_of (Lit l) = []"
| "keys_of (Group is) = []"

text \<open>The rows that the condition selects are rewritten; one failure fails the statement.\<close>

fun update_rows ::
  "(report \<Rightarrow> error + report) \<Rightarrow> (report \<Rightarrow> bool) \<Rightarrow> report list \<Rightarrow> error + report list" where
  "update_rows f p [] = Inr []"
| "update_rows f p (r # rs) =
     (case (if p r then f r else Inr r) of
        Inl err \<Rightarrow> Inl err
      | Inr r' \<Rightarrow> (case update_rows f p rs of Inl err \<Rightarrow> Inl err | Inr rs' \<Rightarrow> Inr (r' # rs')))"

definition update_status :: "env \<Rightarrow> jsval \<Rightarrow> string \<Rightarrow> world \<Rightarrow> error + world" where
  "update_status e v ids w =
     (case escape v of
        [] \<Rightarrow> Inl ER_PARSE_ERROR
      | first # rest \<Rightarrow>
          if \<not> well_formed first \<or> \<not> list_all is_assignment rest then Inl ER_PARSE_ERROR
          else if \<not> list_all (\<lambda>k. column_of_key e k \<noteq> None) (concat (map keys_of (first # rest)))
          then Inl ER_BAD_FIELD_ERROR
          else if \<not> is_numeral ids \<and> odd_id_error e ids (reports w)
          then Inl ER_TRUNCATED_WRONG_VALUE
          else
            (case update_rows (set_row e (reports w) first rest)
                    (\<lambda>r. id_matches e ids (report_id r)) (reports w) of
               Inl err \<Rightarrow> Inl err
             | Inr rows \<Rightarrow> Inr (w\<lparr>reports := rows\<rparr>)))"

text \<open>
  \<open>SELECT * FROM admin_users WHERE username=?\<close>: the parameter has to be one expression.
\<close>

definition select_users :: "env \<Rightarrow> jsval \<Rightarrow> admin_user list \<Rightarrow> error + admin_user list" where
  "select_users e v users =
     (case escape v of
        [] \<Rightarrow> Inl ER_PARSE_ERROR
      | [i] \<Rightarrow>
          (case i of
             Lit (SqlText s) \<Rightarrow> Inr (filter (\<lambda>u. matches e s (username u)) users)
           | Lit SqlNull \<Rightarrow> Inr []
           | _ \<Rightarrow> odd_select e i users)
      | i # j # rest \<Rightarrow> Inl ER_PARSE_ERROR)"

section \<open>File upload (app.js, lines 104-121)\<close>

text \<open>
  Node's \<open>path.extname\<close>, from its documentation: the extension runs from the last dot of
  the last portion of the path to its end; it is empty when that portion has no dot, or no
  dot other than its first character, and for the portion \<open>..\<close>.
\<close>

definition last_portion :: "string \<Rightarrow> string" where
  "last_portion p =
     rev (takeWhile (\<lambda>c. c \<noteq> CHR ''/'') (dropWhile (\<lambda>c. c = CHR ''/'') (rev p)))"

definition extname :: "string \<Rightarrow> string" where
  "extname p =
     (let base = last_portion p;
          after_dot = rev (takeWhile (\<lambda>c. c \<noteq> CHR ''.'') (rev base))
      in if CHR ''.'' \<notin> set base then []
         else if Suc (length after_dot) = length base then []
         else if base = ''..'' then []
         else CHR ''.'' # after_dot)"

definition allowed :: "string list" where
  "allowed = [''.jpg'', ''.jpeg'', ''.png'']"

definition fileFilter :: "upload \<Rightarrow> error + bool" where
  "fileFilter file =
     (let ext = toLowerCase (extname (originalname file))
      in if ext \<notin> set allowed then Inl (Error ''Only JPG/PNG allowed'') else Inr True)"

definition fileSize :: nat where
  "fileSize = 5 * 1024 * 1024"

text \<open>The disk storage's \<open>filename\<close> callback.\<close>

definition filename :: "env \<Rightarrow> upload \<Rightarrow> string" where
  "filename e file =
     (let ext = toLowerCase (extname (originalname file))
      in toString (int (upload_stamp e)) @ ''-'' @ toString (int (upload_rnd e)) @ ext)"

text \<open>
  \<open>upload.single('photo')\<close>: no file part leaves \<open>req.file\<close> undefined; otherwise multer asks
  the file filter first, then stores the file and fails with \<open>LIMIT_FILE_SIZE\<close> when it has
  more than \<open>fileSize\<close> bytes. The result is \<open>req.file.filename\<close>.
\<close>

definition upload_single :: "env \<Rightarrow> upload option \<Rightarrow> error + string option" where
  "upload_single e photo =
     (case photo of
        None \<Rightarrow> Inr None
      | Some file \<Rightarrow>
         (case fileFilter file of
            Inl err \<Rightarrow> Inl err
          | Inr _ \<Rightarrow> if fileSize < size file then Inl LIMIT_FILE_SIZE
                    else Inr (Some (filename e file))))"

section \<open>Routes (app.js, lines 131-309)\<close>

text \<open>
  Every handler that uses the store has the shape
  \<open>const conn = await pool.getConnection(); try { ... } catch (e) { ...500... } finally {
  conn.release(); }\<close>. The body of the \<open>try\<close> block yields the response it sent or the
  error it threw, and the state; \<open>catch_finally\<close> is the rest. In every handler statement 0
  is the \<open>USE\<close> statement and statement 1 is the handler's query.

  A handler changes the tables with at most one statement, and a statement is atomic in the
  store. Requests that run concurrently therefore act on the tables as the same requests
  run one after another in some order, which is how the model runs them.
\<close>

definition catch_finally :: "response \<Rightarrow> (error + response) \<times> world \<Rightarrow> reply \<times> world" where
  "catch_finally on_error x =
     (case x of
        (Inl err, w) \<Rightarrow> (Reply on_error, release w)
      | (Inr resp, w) \<Rightarrow> (Reply resp, release w))"

definition opt_json :: "string option \<Rightarrow> json" where
  "opt_json v = (case v of None \<Rightarrow> JNull | Some s \<Rightarrow> JStr s)"

definition status_json :: "status option \<Rightarrow> json" where
  "status_json v = (case v of None \<Rightarrow> JNull | Some st \<Rightarrow> JStr (status_name st))"

text \<open>A row of \<open>SELECT *\<close>, and the narrower selections of the API and of the dashboard.\<close>

definition row_json :: "report \<Rightarrow> json" where
  "row_json r = JObj
     [(''id'', JNum (int (report_id r))), (''case_id'', opt_json (case_id r)),
      (''citizen_name'', opt_json (citizen_name r)), (''email'', opt_json (email r)),
      (''phone'', opt_json (phone r)), (''image_path'', opt_json (image_path r)),
      (''location'', JStr (location r)), (''description'', opt_json (description r)),
      (''issue_type'', JStr (issue_type r)), (''status'', status_json (status r)),
      (''created_at'', JNum (int (created_at r)))]"

definition api_row_json :: "report \<Rightarrow> json" where
  "api_row_json r = JObj
     [(''case_id'', opt_json (case_id r)), (''status'', status_json (status r)),
      (''issue_type'', JStr (issue_type r)), (''location'', JStr (location r)),
      (''created_at'', JNum (int (created_at r)))]"

definition dashboard_row_json :: "report \<Rightarrow> json" where
  "dashboard_row_json r = JObj
     [(''id'', JNum (int (report_id r))), (''case_id'', opt_json (case_id r)),
      (''issue_type'', JStr (issue_type r)), (''status'', status_json (status r)),
      (''created_at'', JNum (int (created_at r)))]"

text \<open>\<open>encodeURIComponent\<close> on ASCII text.\<close>

definition unreserved :: "char \<Rightarrow> bool" where
  "unreserved c = (c \<in> set
     (''ABCDEFGHIJKLMNOPQRSTUVWXYZabcdefghijklmnopqrstuvwxyz0123456789-_.!~*()'' @ [CHR 0x27]))"

definition hex_char :: "nat \<Rightarrow> char" where
  "hex_char d = ''0123456789ABCDEF'' ! d"

definition encodeURIComponent :: "string \<Rightarrow> string" where
  "encodeURIComponent s = concat (map (\<lambda>c. if unreserved c then [c]
       else [CHR ''%'', hex_char (of_char c div 16), hex_char (of_char c mod 16)]) s)"

text \<open>
  The eight parameters of the \<open>INSERT\<close> of both submission routes (lines 151-156 and
  199-204): the case identifier, \<open>req.file\<close>'s path or \<open>null\<close>, and the fields of the body.
\<close>

definition insert_params :: "string \<Rightarrow> string option \<Rightarrow> body \<Rightarrow> jsval list" where
  "insert_params cid file b =
     [Str cid, or_null (b ''citizen_name''), or_null (b ''email''), or_null (b ''phone''),
      (case file of None \<Rightarrow> Null | Some fn \<Rightarrow> Str (''/uploads/'' @ fn)),
      b ''location'', or_null (b ''description''), b ''issue_type'']"

text \<open>\<open>POST /report\<close> (lines 145-165), after multer has set \<open>req.file\<close>.\<close>

definition report_post :: "env \<Rightarrow> string option \<Rightarrow> body \<Rightarrow> world \<Rightarrow> reply \<times> world" where
  "report_post e file b w =
     (case getConnection e w of
        Inl r \<Rightarrow> (r, w)
      | Inr w1 \<Rightarrow> catch_finally (Send 500 ''Failed to submit report.'')
         (if db_fault e 0 then (Inl StoreFault, w1)
          else
            let cid = genCaseId (year e) (rnd e)
            in if db_fault e 1 then (Inl StoreFault, w1)
               else
                 (case insert_report e (clock e) (insert_params cid file b) w1 of
                    Inl err \<Rightarrow> (Inl err, w1)
                  | Inr w2 \<Rightarrow>
                     (Inr (Render ''success''
                            [(''title'', JStr ''Submitted''), (''caseId'', JStr cid)]), w2))))"

text \<open>\<open>GET /track\<close> (lines 167-171).\<close>

definition track_get :: "body \<Rightarrow> response" where
  "track_get q =
     (if \<not> truthy (q ''caseId'') then Render ''track'' [(''title'', JStr ''Track'')]
      else Redirect (''/track/'' @ encodeURIComponent (js_string (q ''caseId''))))"

text \<open>\<open>GET /track/:caseId\<close> (lines 173-189).\<close>

definition track_case_get :: "env \<Rightarrow> string \<Rightarrow> world \<Rightarrow> reply \<times> world" where
  "track_case_get e caseId w =
     (case getConnection e w of
        Inl r \<Rightarrow> (r, w)
      | Inr w1 \<Rightarrow> catch_finally (Send 500 ''Failed to fetch case.'')
         (if db_fault e 0 then (Inl StoreFault, w1)
          else if db_fault e 1 then (Inl StoreFault, w1)
          else
            (case select_by_case_id e caseId (reports w1) of
               [] \<Rightarrow> (Inr (Render ''track_case''
                            [(''title'', JStr ''Track''), (''report'', JNull)]), w1)
             | r # _ \<Rightarrow> (Inr (Render ''track_case''
                            [(''title'', JStr ''Track''), (''report'', row_json r)]), w1))))"

text \<open>\<open>POST /api/reports\<close> (lines 192-213), after multer has set \<open>req.file\<close>.\<close>

definition api_reports_post :: "env \<Rightarrow> string option \<Rightarrow> body \<Rightarrow> world \<Rightarrow> reply \<times> world" where
  "api_reports_post e file b w =
     (case getConnection e w of
        Inl r \<Rightarrow> (r, w)
      | Inr w1 \<Rightarrow> catch_finally (Json 500 (JObj [(''ok'', JBool False), (''error'', JStr ''failed'')]))
         (if db_fault e 0 then (Inl StoreFault, w1)
          else if \<not> truthy (b ''location'') \<or> \<not> truthy (b ''issue_type'')
          then (Inr (Json 400 (JObj [(''error'', JStr ''location and issue_type required'')])), w1)
          else
            let cid = genCaseId (year e) (rnd e)
            in if db_fault e 1 then (Inl StoreFault, w1)
               else
                 (case insert_report e (clock e) (insert_params cid file b) w1 of
                    Inl err \<Rightarrow> (Inl err, w1)
                  | Inr w2 \<Rightarrow>
                     (Inr (Json 200 (JObj [(''ok'', JBool True), (''case_id'', JStr cid)])), w2))))"

text \<open>\<open>GET /api/reports/:caseId\<close> (lines 215-230).\<close>

definition api_reports_get :: "env \<Rightarrow> string \<Rightarrow> world \<Rightarrow> reply \<times> world" where
  "api_reports_get e caseId w =
     (case getConnection e w of
        Inl r \<Rightarrow> (r, w)
      | Inr w1 \<Rightarrow> catch_finally (Json 500 (JObj [(''error'', JStr ''failed'')]))
         (if db_fault e 0 then (Inl StoreFault, w1)
          else if db_fault e 1 then (Inl StoreFault, w1)
          else
            (case select_by_case_id e caseId (reports w1) of
               [] \<Rightarrow> (Inr (Json 404 (JObj [(''error'', JStr ''not found'')])), w1)
             | r # _ \<Rightarrow> (Inr (Json 200 (api_row_json r)), w1))))"

text \<open>\<open>ensureAuth\<close> (lines 131-134): the session of the request holds a user.\<close>

definition ensureAuth :: "string \<Rightarrow> world \<Rightarrow> reply \<times> world \<Rightarrow> reply \<times> world" where
  "ensureAuth sid w next =
     (if sessions w sid \<noteq> None then next else (Reply (Redirect ''/admin/login''), w))"

text \<open>
  \<open>POST /admin/login\<close> (lines 237-256). \<open>bcrypt.compare\<close> throws when the password is not
  a string.
\<close>

definition admin_login_post :: "env \<Rightarrow> string \<Rightarrow> body \<Rightarrow> world \<Rightarrow> reply \<times> world" where
  "admin_login_post e sid b w =
     (case getConnection e w of
        Inl r \<Rightarrow> (r, w)
      | Inr w1 \<Rightarrow> catch_finally (Send 500 ''Login failed'')
         (if db_fault e 0 then (Inl StoreFault, w1)
          else if db_fault e 1 then (Inl StoreFault, w1)
          else
            (case select_users e (b ''username'') (admin_users w1) of
               Inl err \<Rightarrow> (Inl err, w1)
             | Inr [] \<Rightarrow> (Inr (Render ''admin_login''
                            [(''title'', JStr ''Login''), (''error'', JStr ''Invalid credentials'')]), w1)
             | Inr (user # _) \<Rightarrow>
                (case b ''password'' of
                   Str password \<Rightarrow>
                    if \<not> bcrypt_compare e password (password_hash user)
                    then (Inr (Render ''admin_login''
                            [(''title'', JStr ''Login''), (''error'', JStr ''Invalid credentials'')]), w1)
                    else (Inr (Redirect ''/admin/dashboard''),
                          w1\<lparr>sessions := (sessions w1)
                                (sid \<mapsto> (admin_id user, username user, role user))\<rparr>)
                 | _ \<Rightarrow> (Inl BcryptError, w1)))))"

text \<open>\<open>GET /admin/logout\<close> (lines 258-260).\<close>

definition admin_logout_get :: "string \<Rightarrow> world \<Rightarrow> reply \<times> world" where
  "admin_logout_get sid w = (Reply (Redirect ''/''), w\<lparr>sessions := (sessions w)(sid := None)\<rparr>)"

text \<open>\<open>GET /admin/dashboard\<close> (lines 262-275): the 100 rows with the largest ids.\<close>

definition admin_dashboard_get :: "env \<Rightarrow> world \<Rightarrow> reply \<times> world" where
  "admin_dashboard_get e w =
     (case getConnection e w of
        Inl r \<Rightarrow> (r, w)
      | Inr w1 \<Rightarrow> catch_finally (Send 500 ''Failed to load dashboard'')
         (if db_fault e 0 then (Inl StoreFault, w1)
          else if db_fault e 1 then (Inl StoreFault, w1)
          else (Inr (Render ''admin_dashboard''
                  [(''title'', JStr ''Dashboard''),
                   (''reports'', JArr (map dashboard_row_json
                       (take 100 (rev (sort_key report_id (reports w1))))))]), w1)))"

text \<open>\<open>GET /admin/case/:id\<close> (lines 277-292), with the route parameter as it is written.\<close>

definition admin_case_get :: "env \<Rightarrow> string \<Rightarrow> world \<Rightarrow> reply \<times> world" where
  "admin_case_get e ids w =
     (case getConnection e w of
        Inl r \<Rightarrow> (r, w)
      | Inr w1 \<Rightarrow> catch_finally (Send 500 ''Failed to load case'')
         (if db_fault e 0 then (Inl StoreFault, w1)
          else if db_fault e 1 then (Inl StoreFault, w1)
          else
            (case select_by_id e ids (reports w1) of
               [] \<Rightarrow> (Inr (Send 404 ''Not found''), w1)
             | r # _ \<Rightarrow> (Inr (Render ''admin_case''
                            [(''title'', JStr ''Case''), (''report'', row_json r)]), w1))))"

text \<open>
  \<open>POST /admin/case/:id/status\<close> (lines 294-309): the redirect repeats the route parameter
  as it is written.
\<close>

definition admin_case_status_post :: "env \<Rightarrow> string \<Rightarrow> body \<Rightarrow> world \<Rightarrow> reply \<times> world" where
  "admin_case_status_post e ids b w =
     (case getConnection e w of
        Inl r \<Rightarrow> (r, w)
      | Inr w1 \<Rightarrow> catch_finally (Send 500 ''Failed to update status'')
         (if db_fault e 0 then (Inl StoreFault, w1)
          else if db_fault e 1 then (Inl StoreFault, w1)
          else
            (case update_status e (b ''status'') ids w1 of
               Inl err \<Rightarrow> (Inl err, w1)
             | Inr w2 \<Rightarrow> (Inr (Redirect (''/admin/case/'' @ ids)), w2))))"

text \<open>
  The routes with what each reads from the request. A request carries its session id.
  A middleware error (multer's) goes to Express's error handler, which answers 500.
\<close>

datatype route =
    GET_index
  | GET_report
  | POST_report "upload option" body
  | GET_track body
  | GET_track_caseId string
  | POST_api_reports "upload option" body
  | GET_api_reports_caseId string
  | GET_admin_login
  | POST_admin_login body
  | GET_admin_logout
  | GET_admin_dashboard
  | GET_admin_case_id string
  | POST_admin_case_id_status string body

fun handle :: "env \<Rightarrow> string \<Rightarrow> route \<Rightarrow> world \<Rightarrow> reply \<times> world" where
  "handle e sid GET_index w = (Reply (Render ''index'' [(''title'', JStr ''Home'')]), w)"
| "handle e sid GET_report w = (Reply (Render ''report'' [(''title'', JStr ''Report'')]), w)"
| "handle e sid (POST_report photo b) w =
     (case upload_single e photo of
        Inl err \<Rightarrow> (Reply (ErrorPage 500), w)
      | Inr file \<Rightarrow> report_post e file b w)"
| "handle e sid (GET_track q) w = (Reply (track_get q), w)"
| "handle e sid (GET_track_caseId c) w = track_case_get e c w"
| "handle e sid (POST_api_reports photo b) w =
     (case upload_single e photo of
        Inl err \<Rightarrow> (Reply (ErrorPage 500), w)
      | Inr file \<Rightarrow> api_reports_post e file b w)"
| "handle e sid (GET_api_reports_caseId c) w = api_reports_get e c w"
| "handle e sid GET_admin_login w =
     (Reply (Render ''admin_login'' [(''title'', JStr ''Login''), (''error'', JNull)]), w)"
| "handle e sid (POST_admin_login b) w = admin_login_post e sid b w"
| "handle e sid GET_admin_logout w = admin_logout_get sid w"
| "handle e sid GET_admin_dashboard w = ensureAuth sid w (admin_dashboard_get e w)"
| "handle e sid (GET_admin_case_id ids) w = ensureAuth sid w (admin_case_get e ids w)"
| "handle e sid (POST_admin_case_id_status ids b) w =
     ensureAuth sid w (admin_case_status_post e ids b w)"

section \<open>Startup (app.js, lines 26-77)\<close>

text \<open>
  \<open>ensureDatabase\<close> and \<open>ensureAdminUser\<close> use \<open>try { ... } finally { conn.release(); }\<close>
  with no \<open>catch\<close>: an error leaves the function after the release.
\<close>

definition finally_release :: "'a \<times> world \<Rightarrow> 'a \<times> world" where
  "finally_release x = (case x of (r, w) \<Rightarrow> (r, release w))"

text \<open>
  The result is \<open>None\<close> when the function returns, \<open>Some (Rejected err)\<close> when it throws and
  \<open>Some Pending\<close> while it waits for a connection.
\<close>

definition ensureDatabase :: "env \<Rightarrow> world \<Rightarrow> reply option \<times> world" where
  "ensureDatabase e w =
     (case getConnection e w of
        Inl r \<Rightarrow> (Some r, w)
      | Inr w1 \<Rightarrow> finally_release
         (if db_fault e 0 then (Some (Rejected StoreFault), w1)
          else if db_fault e 1 then (Some (Rejected StoreFault), w1)
          else if db_fault e 2 then (Some (Rejected StoreFault), w1)
          else if db_fault e 3 then (Some (Rejected StoreFault), w1)
          else (None, w1)))"

text \<open>
  \<open>name\<close> and \<open>password\<close> are \<open>ADMIN_USERNAME\<close> and \<open>ADMIN_PASSWORD\<close> of the process
  environment, or their defaults.
\<close>

definition ensureAdminUser :: "env \<Rightarrow> string \<Rightarrow> string \<Rightarrow> world \<Rightarrow> reply option \<times> world" where
  "ensureAdminUser e name password w =
     (case getConnection e w of
        Inl r \<Rightarrow> (Some r, w)
      | Inr w1 \<Rightarrow> finally_release
         (if db_fault e 0 then (Some (Rejected StoreFault), w1)
          else if db_fault e 1 then (Some (Rejected StoreFault), w1)
          else if filter (\<lambda>u. matches e name (username u)) (admin_users w1) \<noteq> [] then (None, w1)
          else
            let hash = bcrypt_hash e password
            in if db_fault e 2 then (Some (Rejected StoreFault), w1)
               else if \<not> (length name \<le> 50 \<and> length hash \<le> 255)
               then (Some (Rejected ER_DATA_TOO_LONG), w1)
               else (None, w1\<lparr>admin_users := admin_users w1 @
                       [\<lparr>admin_id = admin_auto_inc w1, username = Some name,
                         password_hash = hash, role = Some ''officer'',
                         admin_created_at = clock e\<rparr>],
                       admin_auto_inc := Suc (admin_auto_inc w1)\<rparr>)))"

section \<open>Properties of reports\<close>

text \<open>Two rows agree on every column except \<open>status\<close>.\<close>

definition same_but_status :: "report \<Rightarrow> report \<Rightarrow> bool" where
  "same_but_status r r' =
     (report_id r' = report_id r \<and> case_id r' = case_id r \<and> citizen_name r' = citizen_name r
      \<and> email r' = email r \<and> phone r' = phone r \<and> image_path r' = image_path r
      \<and> location r' = location r \<and> description r' = description r
      \<and> issue_type r' = issue_type r \<and> created_at r' = created_at r)"

text \<open>
  Every row of the table before is still there after, in its place and unchanged except
  perhaps for \<open>status\<close>; rows may have been added behind.
\<close>

definition kept :: "report list \<Rightarrow> report list \<Rightarrow> bool" where
  "kept rows rows' =
     (length rows \<le> length rows' \<and> list_all2 same_but_status rows (take (length rows) rows'))"


section \<open>Sample values\<close>

text \<open>
  A request environment without faults, in which a toy function stands in for bcrypt and the
  store's unmodelled answers are errors or empty; a store with one administrator, who is
  logged in under session \<open>s1\<close>; and bodies: the one of the specification's scenario, one with
  every optional field, and some for status updates.
\<close>

definition sample_env :: env where
  "sample_env = \<lparr>year = 2025, rnd = 123, clock = 1700000000, upload_stamp = 1700000000000,
     upload_rnd = 42, pool_error = False, db_fault = (\<lambda>k. False),
     bcrypt_compare = (\<lambda>p h. h = ''hash:'' @ p),
     bcrypt_hash = (\<lambda>p. ''hash:'' @ p),
     sql_compare = (\<lambda>c x y. Inl ER_OTHER),
     insert_expr = (\<lambda>k x. Inl ER_OTHER),
     odd_assign = (\<lambda>c x rows r. Inl ER_OTHER),
     odd_key = (\<lambda>k. None),
     odd_id = (\<lambda>s n. False),
     odd_select = (\<lambda>i users. Inl ER_OTHER),
     collate = (\<lambda>a b. False),
     odd_enum = (\<lambda>s. Inl ER_OTHER),
     odd_id_error = (\<lambda>s rows. False)\<rparr>"

definition sample_world :: world where
  "sample_world = \<lparr>reports = [], reports_auto_inc = 1,
     admin_users = [\<lparr>admin_id = 1, username = Some ''admin'',
       password_hash = ''hash:admin123'', role = Some ''officer'',
       admin_created_at = 1600000000\<rparr>],
     admin_auto_inc = 2,
     sessions = [''s1'' \<mapsto> (1, Some ''admin'', Some ''officer'')],
     held = 0\<rparr>"

definition sample_report :: report where
  "sample_report = \<lparr>report_id = 1, case_id = Some ''REP2025000123'', citizen_name = None,
     email = None, phone = None, image_path = None, location = ''Main St & 5th'',
     description = None, issue_type = ''pothole'', status = Some NEW,
     created_at = 1700000000\<rparr>"

definition sample_world1 :: world where
  "sample_world1 = sample_world\<lparr>reports := [sample_report], reports_auto_inc := 2\<rparr>"

definition verified_world :: world where
  "verified_world = sample_world\<lparr>reports := [sample_report\<lparr>status := Some VERIFIED\<rparr>],
     reports_auto_inc := 2\<rparr>"


definition sample_body :: body where
  "sample_body = (\<lambda>k. Undefined)
     (''location'' := Str ''Main St & 5th'', ''issue_type'' := Str ''pothole'')"

definition full_body :: body where
  "full_body = (\<lambda>k. Undefined)
     (''location'' := Str ''Main St & 5th'', ''issue_type'' := Str ''pothole'',
      ''citizen_name'' := Str ''Ada'', ''email'' := Str ''ada@example.org'',
      ''phone'' := Str ''555-0100'', ''description'' := Str ''deep hole'')"

definition full_report :: report where
  "full_report = \<lparr>report_id = 1, case_id = Some ''REP2025000123'',
     citizen_name = Some ''Ada'', email = Some ''ada@example.org'', phone = Some ''555-0100'',
     image_path = Some ''/uploads/1700000000000-42.jpg'', location = ''Main St & 5th'',
     description = Some ''deep hole'', issue_type = ''pothole'', status = Some NEW,
     created_at = 1700000000\<rparr>"

definition sample_photo :: upload where
  "sample_photo = \<lparr>originalname = ''photo.jpg'', size = 4 * 1024 * 1024\<rparr>"

definition status_body :: "jsval \<Rightarrow> body" where
  "status_body v = (\<lambda>k. Undefined)(''status'' := v)"

section \<open>Decimal notation\<close>

lemma below_ten: "(d::nat) < 10 \<Longrightarrow> d \<in> {0, 1, 2, 3, 4, 5, 6, 7, 8, 9}"
  by auto

lemma is_digit_digit_char: "d < 10 \<Longrightarrow> is_digit (digit_char d)"
  by (drule below_ten) (auto simp: is_digit_def digit_char_def)

lemma digits_all_digit: "list_all is_digit (digits n)"
proof (induction n rule: digits.induct)
  case (1 n)
  show ?case
  proof (cases "n < 10")
    case True
    then show ?thesis by (subst digits.simps) (simp add: is_digit_digit_char)
  next
    case False
    then have "list_all is_digit (digits (n div 10))" using 1 by simp
    moreover have "is_digit (digit_char (n mod 10))" by (simp add: is_digit_digit_char)
    ultimately show ?thesis using False by (subst digits.simps) simp
  qed
qed

lemma digits_length_le: "n < 10 ^ k \<Longrightarrow> 0 < k \<Longrightarrow> length (digits n) \<le> k"
proof (induction n arbitrary: k rule: digits.induct)
  case (1 n)
  show ?case
  proof (cases "n < 10")
    case True
    then show ?thesis using "1.prems" by (subst digits.simps) simp
  next
    case False
    obtain j where k: "k = Suc j" using "1.prems"(2) by (cases k) auto
    have "j \<noteq> 0" using False "1.prems"(1) k by (cases j) auto
    moreover have "n div 10 < 10 ^ j" using "1.prems"(1) k by (simp add: less_mult_imp_div_less)
    ultimately have "length (digits (n div 10)) \<le> j" using "1.IH" False by simp
    then show ?thesis using False k by (subst digits.simps) simp
  qed
qed

lemma digits_length_ge: "10 ^ k \<le> n \<Longrightarrow> k < length (digits n)"
proof (induction n arbitrary: k rule: digits.induct)
  case (1 n)
  show ?case
  proof (cases "n < 10")
    case True
    have "k = 0"
    proof (cases k)
      case (Suc j)
      have "(1::nat) \<le> 10 ^ j" by simp
      then have "(10::nat) \<le> 10 ^ k" using Suc by simp
      then show ?thesis using True "1.prems" by simp
    qed simp
    then show ?thesis using True by (subst digits.simps) simp
  next
    case False
    show ?thesis
    proof (cases k)
      case 0
      then show ?thesis using False by (subst digits.simps) simp
    next
      case (Suc j)
      have "10 ^ j \<le> n div 10" using "1.prems" Suc by simp
      then have "j < length (digits (n div 10))" using "1.IH" False by simp
      then show ?thesis using False Suc by (subst digits.simps) simp
    qed
  qed
qed

lemma digit_val_digit_char: "d < 10 \<Longrightarrow> digit_val (digit_char d) = d"
  by (drule below_ten) (auto simp: digit_val_def digit_char_def)

lemma digits_val_snoc: "digits_val (s @ [c]) = 10 * digits_val s + digit_val c"
  by (simp add: digits_val_def)

lemma digits_val_digits: "digits_val (digits n) = n"
proof (induction n rule: digits.induct)
  case (1 n)
  show ?case
  proof (cases "n < 10")
    case True
    then show ?thesis by (subst digits.simps) (simp add: digits_val_def digit_val_digit_char)
  next
    case False
    then have "digits_val (digits (n div 10)) = n div 10" using 1 by simp
    then have "digits_val (digits (n div 10) @ [digit_char (n mod 10)]) = n"
      by (simp add: digits_val_snoc digit_val_digit_char)
    then show ?thesis using False by (subst digits.simps) simp
  qed
qed

lemma digits_val_zeros: "digits_val (replicate k CHR ''0'' @ s) = digits_val s"
proof -
  have "foldl (\<lambda>a c. 10 * a + digit_val c) 0 (replicate k CHR ''0'') = 0"
    by (induction k) (simp_all add: digit_val_def)
  then show ?thesis by (simp add: digits_val_def)
qed

lemma year_four_digits:
  assumes "1000 \<le> y" and "y \<le> 9999"
  shows "length (toString y) = 4" and "list_all is_digit (toString y)"
proof -
  have ts: "toString y = digits (nat y)" using assms by (simp add: toString_def)
  have "nat y < 10 ^ 4" using assms by simp
  then have "length (digits (nat y)) \<le> 4" by (rule digits_length_le) simp
  moreover have "(10::nat) ^ 3 \<le> nat y" using assms by simp
  then have "3 < length (digits (nat y))" by (rule digits_length_ge)
  ultimately show "length (toString y) = 4" using ts by simp
  show "list_all is_digit (toString y)" using ts by (simp add: digits_all_digit)
qed

lemma suffix_six_digits:
  assumes "r < 1000000"
  shows "length (padStart 6 CHR ''0'' (toString (int r))) = 6"
    and "list_all is_digit (padStart 6 CHR ''0'' (toString (int r)))"
    and "digits_val (padStart 6 CHR ''0'' (toString (int r))) = r"
proof -
  have ts: "toString (int r) = digits r" by (simp add: toString_def)
  have "r < 10 ^ 6" using assms by simp
  then have le: "length (digits r) \<le> 6" by (rule digits_length_le) simp
  then show "length (padStart 6 CHR ''0'' (toString (int r))) = 6"
    by (simp add: padStart_def ts)
  have "list_all is_digit (replicate k CHR ''0'')" for k
    by (induction k) (simp_all add: is_digit_def)
  then show "list_all is_digit (padStart 6 CHR ''0'' (toString (int r)))"
    by (simp add: padStart_def ts digits_all_digit)
  show "digits_val (padStart 6 CHR ''0'' (toString (int r))) = r"
    by (simp add: padStart_def ts digits_val_zeros digits_val_digits)
qed

section \<open>The case identifier generator\<close>

text \<open>
  Claim C6. Every identifier that \<open>genCaseId\<close> produces has the form
  \<open>REP<year><6-digit-zero-padded-number>\<close>: when the clock's year \<open>y\<close> is a four-digit year
  and \<open>r\<close> is the floored random draw (below one million), the result matches
  \<open>REP\d{4}\d{6}\<close>, its characters 4 to 7 are the decimal notation of \<open>y\<close>, and its last six
  characters are digits that read back as \<open>r\<close>.
\<close>

theorem genCaseId_format:
  assumes "1000 \<le> y" and "y \<le> 9999" and "r < 1000000"
  shows "matches_case_pattern (genCaseId y r)
       \<and> take 4 (drop 3 (genCaseId y r)) = toString y
       \<and> length (drop 7 (genCaseId y r)) = 6
       \<and> digits_val (drop 7 (genCaseId y r)) = r"
proof -
  let ?yd = "toString y" and ?sd = "padStart 6 CHR ''0'' (toString (int r))"
  have g: "genCaseId y r = ''REP'' @ ?yd @ ?sd" by (simp add: genCaseId_def)
  have ly: "length ?yd = 4" and dy: "list_all is_digit ?yd"
    using assms(1,2) by (rule year_four_digits)+
  have ls: "length ?sd = 6" and ds: "list_all is_digit ?sd" and vs: "digits_val ?sd = r"
    using assms(3) by (rule suffix_six_digits)+
  have "matches_case_pattern (genCaseId y r)"
    unfolding matches_case_pattern_def g using ly ls dy ds by simp
  moreover have "take 4 (drop 3 (genCaseId y r)) = ?yd"
    unfolding g using ly by simp
  moreover have "drop 7 (genCaseId y r) = ?sd"
    unfolding g using ly by simp
  ultimately show ?thesis using ls vs by simp
qed

theorem genCaseId_format_witness:
  "(1000::int) \<le> 2025 \<and> (2025::int) \<le> 9999 \<and> (123::nat) < 1000000
   \<and> matches_case_pattern (genCaseId 2025 123)
   \<and> take 4 (drop 3 (genCaseId 2025 123)) = toString 2025
   \<and> length (drop 7 (genCaseId 2025 123)) = 6
   \<and> digits_val (drop 7 (genCaseId 2025 123)) = 123"
proof -
  have a: "(1000::int) \<le> 2025" and b: "(2025::int) \<le> 9999" and c: "(123::nat) < 1000000"
    by simp_all
  show ?thesis using a b c genCaseId_format [OF a b c] by simp
qed

section \<open>Media intake\<close>

lemma set_allowed: "set allowed = {''.jpg'', ''.jpeg'', ''.png''}"
  by (simp add: allowed_def)

lemma ext_gif: "toLowerCase (extname ''photo.gif'') = ''.gif''"
  by (simp add: toLowerCase_def extname_def last_portion_def lower_char_def)

lemma ext_png: "toLowerCase (extname ''photo.png'') = ''.png''"
  by (simp add: toLowerCase_def extname_def last_portion_def lower_char_def)

lemma ext_jpg: "toLowerCase (extname ''photo.jpg'') = ''.jpg''"
  by (simp add: toLowerCase_def extname_def last_portion_def lower_char_def)

lemma ext_JPG: "toLowerCase (extname ''PHOTO.JPG'') = ''.jpg''"
  by (simp add: toLowerCase_def extname_def last_portion_def lower_char_def)

lemma upload_single_Some:
  "upload_single e (Some f) =
     (if toLowerCase (extname (originalname f)) \<notin> {''.jpg'', ''.jpeg'', ''.png''}
      then Inl (Error ''Only JPG/PNG allowed'')
      else if 5 * 1024 * 1024 < size f then Inl LIMIT_FILE_SIZE
      else Inr (Some (filename e f)))"
  by (simp add: upload_single_def fileFilter_def Let_def set_allowed fileSize_def del: insert_iff)

lemma upload_samples:
  "upload_single e (Some \<lparr>originalname = ''photo.gif'', size = 1024\<rparr>)
        = Inl (Error ''Only JPG/PNG allowed'')"
  "upload_single e (Some \<lparr>originalname = ''photo.png'', size = 6 * 1024 * 1024\<rparr>)
        = Inl LIMIT_FILE_SIZE"
  "\<exists>fn. upload_single e (Some \<lparr>originalname = ''photo.jpg'', size = 4 * 1024 * 1024\<rparr>)
        = Inr (Some fn)"
  "\<exists>fn. upload_single e (Some \<lparr>originalname = ''PHOTO.JPG'', size = 4 * 1024 * 1024\<rparr>)
        = Inr (Some fn)"
  by (simp_all add: upload_single_Some ext_gif ext_png ext_jpg ext_JPG)

lemma toString_samples: "toString 1700000000000 = ''1700000000000''" "toString 42 = ''42''"
  by (simp_all add: toString_def digits.simps digit_char_def)

lemma filename_sample:
  "filename sample_env \<lparr>originalname = ''photo.jpg'', size = n\<rparr> = ''1700000000000-42.jpg''"
  by (simp add: filename_def ext_jpg sample_env_def toString_samples)

text \<open>
  Claim C7. Media intake accepts an uploaded file if and only if its extension, lower-cased,
  is one of \<open>.jpg\<close>, \<open>.jpeg\<close>, \<open>.png\<close> and it has at most 5 MiB: another extension is
  rejected by the file filter's error, an allowed one with more than 5 MiB by multer's
  \<open>LIMIT_FILE_SIZE\<close>. A \<open>.gif\<close> is rejected, a 6 MiB \<open>.png\<close> is rejected, a 4 MiB \<open>.jpg\<close>
  is accepted.
\<close>

theorem media_intake_accepts:
  "((\<exists>fn. upload_single e (Some f) = Inr fn)
      \<longleftrightarrow> toLowerCase (extname (originalname f)) \<in> {''.jpg'', ''.jpeg'', ''.png''}
          \<and> size f \<le> 5 * 1024 * 1024)
   \<and> (toLowerCase (extname (originalname f)) \<notin> {''.jpg'', ''.jpeg'', ''.png''} \<longrightarrow>
        upload_single e (Some f) = Inl (Error ''Only JPG/PNG allowed''))
   \<and> (toLowerCase (extname (originalname f)) \<in> {''.jpg'', ''.jpeg'', ''.png''}
        \<and> 5 * 1024 * 1024 < size f \<longrightarrow> upload_single e (Some f) = Inl LIMIT_FILE_SIZE)
   \<and> (toLowerCase (extname (originalname f)) \<in> {''.jpg'', ''.jpeg'', ''.png''}
        \<and> size f \<le> 5 * 1024 * 1024 \<longrightarrow> upload_single e (Some f) = Inr (Some (filename e f)))
   \<and> upload_single e (Some \<lparr>originalname = ''photo.gif'', size = 1024\<rparr>)
        = Inl (Error ''Only JPG/PNG allowed'')
   \<and> upload_single e (Some \<lparr>originalname = ''photo.png'', size = 6 * 1024 * 1024\<rparr>)
        = Inl LIMIT_FILE_SIZE
   \<and> (\<exists>fn. upload_single e (Some \<lparr>originalname = ''photo.jpg'', size = 4 * 1024 * 1024\<rparr>)
        = Inr (Some fn))
   \<and> (\<exists>fn. upload_single e (Some \<lparr>originalname = ''PHOTO.JPG'', size = 4 * 1024 * 1024\<rparr>)
        = Inr (Some fn))"
proof -
  have "(\<exists>fn. upload_single e (Some f) = Inr fn)
      \<longleftrightarrow> toLowerCase (extname (originalname f)) \<in> {''.jpg'', ''.jpeg'', ''.png''}
          \<and> size f \<le> 5 * 1024 * 1024"
    by (simp add: upload_single_Some del: insert_iff)
  moreover have "toLowerCase (extname (originalname f)) \<notin> {''.jpg'', ''.jpeg'', ''.png''} \<longrightarrow>
        upload_single e (Some f) = Inl (Error ''Only JPG/PNG allowed'')"
    by (simp add: upload_single_Some del: insert_iff)
  moreover have "toLowerCase (extname (originalname f)) \<in> {''.jpg'', ''.jpeg'', ''.png''}
        \<and> 5 * 1024 * 1024 < size f \<longrightarrow> upload_single e (Some f) = Inl LIMIT_FILE_SIZE"
    by (simp add: upload_single_Some del: insert_iff)
  moreover have "toLowerCase (extname (originalname f)) \<in> {''.jpg'', ''.jpeg'', ''.png''}
        \<and> size f \<le> 5 * 1024 * 1024 \<longrightarrow> upload_single e (Some f) = Inr (Some (filename e f))"
    by (simp add: upload_single_Some del: insert_iff)
  ultimately show ?thesis using upload_samples [of e] by blast
qed

theorem media_intake_accepts_witness:
  "toLowerCase (extname (originalname
      \<lparr>originalname = ''photo.jpg'', size = 4 * 1024 * 1024\<rparr>)) \<in> {''.jpg'', ''.jpeg'', ''.png''}
   \<and> size \<lparr>originalname = ''photo.jpg'', size = 4 * 1024 * 1024\<rparr> \<le> 5 * 1024 * 1024
   \<and> upload_single sample_env (Some \<lparr>originalname = ''photo.jpg'', size = 4 * 1024 * 1024\<rparr>)
       = Inr (Some ''1700000000000-42.jpg'')"
  using media_intake_accepts [of sample_env
      "\<lparr>originalname = ''photo.jpg'', size = 4 * 1024 * 1024\<rparr>"]
  by (simp add: ext_jpg filename_sample)

section \<open>Statement parameters of simple values\<close>

lemma escape_scalar [simp]:
  "escape Undefined = [Lit SqlNull]" "escape Null = [Lit SqlNull]"
  "escape (Bool b) = [Lit (SqlBool b)]" "escape (Num n) = [Lit (SqlNum n)]"
  "escape (Str s) = [Lit (SqlText s)]"
  by (simp_all add: escape_def)

lemma param_value_scalar [simp]:
  "param_value cmp Undefined = Inr SqlNull" "param_value cmp Null = Inr SqlNull"
  "param_value cmp (Bool b) = Inr (SqlBool b)" "param_value cmp (Num n) = Inr (SqlNum n)"
  "param_value cmp (Str s) = Inr (SqlText s)"
  by (simp_all add: param_value_def)


lemma or_null_Str: "or_null (Str s) = (if s = [] then Null else Str s)"
  by (simp add: or_null_def)

lemma collect_Inr:
  "collect xs = Inr vs \<Longrightarrow> length vs = length xs \<and> (\<forall>i < length xs. xs ! i = Inr (vs ! i))"
proof (induction xs arbitrary: vs)
  case Nil
  then show ?case by simp
next
  case (Cons x xs)
  then obtain v vs' where x: "x = Inr v" and c: "collect xs = Inr vs'" and vs: "vs = v # vs'"
    by (auto split: sum.splits)
  from Cons.IH [OF c] show ?case using x vs by (auto simp: nth_Cons split: nat.splits)
qed

lemma store_row_Inr:
  assumes "store_row e now vs w = Inr w'"
  shows "\<exists>cid cname em ph img l descr t.
           map text_of_lit vs = [cid, cname, em, ph, img, Some l, descr, Some t]
           \<and> fits 32 cid \<and> fits 100 cname \<and> fits 120 em \<and> fits 20 ph \<and> fits 255 img
           \<and> length l \<le> 255 \<and> fits 65535 descr \<and> length t \<le> 32
           \<and> (\<forall>c. cid = Some c \<longrightarrow> (\<forall>r \<in> set (reports w). \<not> matches e c (case_id r)))
           \<and> w' = w\<lparr>reports := reports w @
                    [\<lparr>report_id = reports_auto_inc w, case_id = cid, citizen_name = cname,
                      email = em, phone = ph, image_path = img, location = l,
                      description = descr, issue_type = t, status = Some NEW,
                      created_at = now\<rparr>],
                  reports_auto_inc := Suc (reports_auto_inc w)\<rparr>"
  using assms
  by (simp add: store_row_def split: list.splits option.splits if_splits)

lemma insert_report_Inr:
  assumes "insert_report e now ps w = Inr w'"
  shows "\<exists>vs. collect (map (param_value (insert_expr e)) ps) = Inr vs
           \<and> store_row e now vs w = Inr w'"
  using assms by (auto simp: insert_report_def and_then_def split: sum.splits)

section \<open>The connection pool\<close>

lemma held_store_row: "store_row e now vs w = Inr w' \<Longrightarrow> held w' = held w"
  by (drule store_row_Inr) auto

lemma held_insert_report: "insert_report e now ps w = Inr w' \<Longrightarrow> held w' = held w"
  by (drule insert_report_Inr) (auto dest: held_store_row)

lemma held_update_status: "update_status e v ids w = Inr w' \<Longrightarrow> held w' = held w"
  by (auto simp: update_status_def split: list.splits if_splits sum.splits)

lemma held_getConnection: "getConnection e w = Inr w1 \<Longrightarrow> held w1 = Suc (held w)"
  by (auto simp: getConnection_def split: if_splits)

lemma held_catch_finally: "held (snd (catch_finally r x)) = held (snd x) - 1"
  by (cases x) (auto simp: catch_finally_def release_def split: sum.splits)

lemma held_finally_release: "held (snd (finally_release x)) = held (snd x) - 1"
  by (cases x) (auto simp: finally_release_def release_def)

lemma held_try:
  assumes "\<And>w1. getConnection e w = Inr w1 \<Longrightarrow> held (snd (k w1)) = held w1"
  shows "held (snd (case getConnection e w of Inl r \<Rightarrow> (r, w)
                    | Inr w1 \<Rightarrow> catch_finally on_error (k w1))) = held w"
proof (cases "getConnection e w")
  case (Inl r)
  then show ?thesis by simp
next
  case (Inr w1)
  then show ?thesis using assms [OF Inr] held_getConnection [OF Inr]
    by (simp add: held_catch_finally)
qed

lemma held_report_post: "held (snd (report_post e file b w)) = held w"
  unfolding report_post_def
  by (rule held_try) (auto simp: Let_def split: sum.splits dest: held_insert_report)

lemma held_api_reports_post: "held (snd (api_reports_post e file b w)) = held w"
  unfolding api_reports_post_def
  by (rule held_try) (auto simp: Let_def split: sum.splits dest: held_insert_report)

lemma held_track_case_get: "held (snd (track_case_get e c w)) = held w"
  unfolding track_case_get_def
  by (rule held_try) (auto split: list.splits)

lemma held_api_reports_get: "held (snd (api_reports_get e c w)) = held w"
  unfolding api_reports_get_def
  by (rule held_try) (auto split: list.splits)

lemma held_admin_login_post: "held (snd (admin_login_post e sid b w)) = held w"
  unfolding admin_login_post_def
  by (rule held_try) (auto split: list.splits jsval.splits sum.splits)

lemma held_admin_dashboard_get: "held (snd (admin_dashboard_get e w)) = held w"
  unfolding admin_dashboard_get_def
  by (rule held_try) auto

lemma held_admin_case_get: "held (snd (admin_case_get e i w)) = held w"
  unfolding admin_case_get_def
  by (rule held_try) (auto split: list.splits)

lemma held_admin_case_status_post: "held (snd (admin_case_status_post e i b w)) = held w"
  unfolding admin_case_status_post_def
  by (rule held_try) (auto split: sum.splits dest: held_update_status)

lemmas held_handlers = held_report_post held_api_reports_post held_track_case_get
  held_api_reports_get held_admin_login_post held_admin_dashboard_get held_admin_case_get
  held_admin_case_status_post

lemma held_handle: "held (snd (handle e sid rt w)) = held w"
  by (cases rt) (simp_all add: held_handlers ensureAuth_def admin_logout_get_def split: sum.splits)

lemma held_ensureDatabase: "held (snd (ensureDatabase e w)) = held w"
  unfolding ensureDatabase_def
  by (cases "getConnection e w") (auto simp: held_finally_release dest: held_getConnection)

lemma held_ensureAdminUser: "held (snd (ensureAdminUser e n p w)) = held w"
  unfolding ensureAdminUser_def
  by (cases "getConnection e w") (auto simp: held_finally_release Let_def dest: held_getConnection)

text \<open>
  Claim C9. Every operation that acquires a store connection releases it on every exit path:
  after any route's handler, and after each of the two startup functions, however it ends
  (a response, a caught error, an error thrown past \<open>finally\<close>, a rejected or queued
  \<open>getConnection\<close>), the number of connections that are checked out is what it was before.
\<close>

theorem connections_released:
  "held (snd (handle e sid rt w)) = held w
   \<and> held (snd (ensureDatabase e w)) = held w
   \<and> held (snd (ensureAdminUser e name password w)) = held w"
  by (simp add: held_handle held_ensureDatabase held_ensureAdminUser)

theorem connections_released_witness:
  "held (snd (handle (sample_env\<lparr>db_fault := (\<lambda>k. k = 1)\<rparr>) ''s1''
            (POST_api_reports None sample_body) sample_world)) = held sample_world
   \<and> held (snd (ensureDatabase (sample_env\<lparr>db_fault := (\<lambda>k. k = 1)\<rparr>) sample_world))
       = held sample_world
   \<and> held (snd (ensureAdminUser (sample_env\<lparr>db_fault := (\<lambda>k. k = 1)\<rparr>)
            ''admin'' ''admin123'' sample_world)) = held sample_world"
  by (rule connections_released)

section \<open>What the operations do to the reports table\<close>

lemma kept_refl: "kept rows rows"
  by (simp add: kept_def list_all2_conv_all_nth same_but_status_def)

lemma kept_append: "kept rows (rows @ new)"
  by (simp add: kept_def list_all2_conv_all_nth same_but_status_def)




lemma reports_getConnection: "getConnection e w = Inr w1 \<Longrightarrow> reports w1 = reports w"
  by (auto simp: getConnection_def split: if_splits)


lemma reports_finally_release: "reports (snd (finally_release x)) = reports (snd x)"
  by (cases x) (auto simp: finally_release_def release_def)







lemma same_ensureDatabase: "reports (snd (ensureDatabase e w)) = reports w"
  unfolding ensureDatabase_def
  by (cases "getConnection e w") (auto simp: reports_finally_release dest: reports_getConnection)

lemma same_ensureAdminUser: "reports (snd (ensureAdminUser e n p w)) = reports w"
  unfolding ensureAdminUser_def
  by (cases "getConnection e w") (auto simp: reports_finally_release Let_def dest: reports_getConnection)







section \<open>The handlers without the connection\<close>

lemma release_acquire: "release (w\<lparr>held := Suc (held w)\<rparr>) = w"
  by (simp add: release_def)

lemma store_row_held:
  "store_row e now vs (w\<lparr>held := h\<rparr>) =
     (case store_row e now vs w of Inl err \<Rightarrow> Inl err | Inr w' \<Rightarrow> Inr (w'\<lparr>held := h\<rparr>))"
  by (simp add: store_row_def split: list.splits option.splits)

lemma insert_report_held:
  "insert_report e now ps (w\<lparr>held := h\<rparr>) =
     (case insert_report e now ps w of Inl err \<Rightarrow> Inl err | Inr w' \<Rightarrow> Inr (w'\<lparr>held := h\<rparr>))"
  by (simp add: insert_report_def and_then_def store_row_held split: sum.splits)

lemma update_status_held:
  "update_status e v ids (w\<lparr>held := h\<rparr>) =
     (case update_status e v ids w of Inl err \<Rightarrow> Inl err | Inr w' \<Rightarrow> Inr (w'\<lparr>held := h\<rparr>))"
  by (simp add: update_status_def split: list.splits sum.splits)

lemma release_after_insert:
  "insert_report e now ps w = Inr w' \<Longrightarrow> release (w'\<lparr>held := Suc (held w)\<rparr>) = w'"
  by (drule held_insert_report) (simp add: release_def)

lemma release_after_update:
  "update_status e v ids w = Inr w' \<Longrightarrow> release (w'\<lparr>held := Suc (held w)\<rparr>) = w'"
  by (drule held_update_status) (simp add: release_def)

lemma api_reports_post_flat:
  "api_reports_post e file b w =
     (if pool_error e then (Rejected PoolError, w)
      else if connectionLimit \<le> held w then (Pending, w)
      else if db_fault e 0
      then (Reply (Json 500 (JObj [(''ok'', JBool False), (''error'', JStr ''failed'')])), w)
      else if \<not> truthy (b ''location'') \<or> \<not> truthy (b ''issue_type'')
      then (Reply (Json 400 (JObj [(''error'', JStr ''location and issue_type required'')])), w)
      else if db_fault e 1
      then (Reply (Json 500 (JObj [(''ok'', JBool False), (''error'', JStr ''failed'')])), w)
      else
        (case insert_report e (clock e)
                (insert_params (genCaseId (year e) (rnd e)) file b) w of
           Inl err \<Rightarrow>
             (Reply (Json 500 (JObj [(''ok'', JBool False), (''error'', JStr ''failed'')])), w)
         | Inr w2 \<Rightarrow>
             (Reply (Json 200 (JObj [(''ok'', JBool True),
                (''case_id'', JStr (genCaseId (year e) (rnd e)))])), w2)))"
  by (auto simp: api_reports_post_def getConnection_def catch_finally_def Let_def
        insert_report_held release_acquire release_after_insert split: sum.splits)

lemma report_post_flat:
  "report_post e file b w =
     (if pool_error e then (Rejected PoolError, w)
      else if connectionLimit \<le> held w then (Pending, w)
      else if db_fault e 0 \<or> db_fault e 1
      then (Reply (Send 500 ''Failed to submit report.''), w)
      else
        (case insert_report e (clock e)
                (insert_params (genCaseId (year e) (rnd e)) file b) w of
           Inl err \<Rightarrow> (Reply (Send 500 ''Failed to submit report.''), w)
         | Inr w2 \<Rightarrow>
             (Reply (Render ''success'' [(''title'', JStr ''Submitted''),
                (''caseId'', JStr (genCaseId (year e) (rnd e)))]), w2)))"
  by (auto simp: report_post_def getConnection_def catch_finally_def Let_def
        insert_report_held release_acquire release_after_insert split: sum.splits)

lemma admin_case_status_post_flat:
  "admin_case_status_post e ids b w =
     (if pool_error e then (Rejected PoolError, w)
      else if connectionLimit \<le> held w then (Pending, w)
      else if db_fault e 0 \<or> db_fault e 1
      then (Reply (Send 500 ''Failed to update status''), w)
      else
        (case update_status e (b ''status'') ids w of
           Inl err \<Rightarrow> (Reply (Send 500 ''Failed to update status''), w)
         | Inr w2 \<Rightarrow> (Reply (Redirect (''/admin/case/'' @ ids)), w2)))"
  by (auto simp: admin_case_status_post_def getConnection_def catch_finally_def
        update_status_held release_acquire release_after_update split: sum.splits)

lemma api_reports_get_flat:
  "api_reports_get e c w =
     (if pool_error e then (Rejected PoolError, w)
      else if connectionLimit \<le> held w then (Pending, w)
      else if db_fault e 0 \<or> db_fault e 1
      then (Reply (Json 500 (JObj [(''error'', JStr ''failed'')])), w)
      else
        (case select_by_case_id e c (reports w) of
           [] \<Rightarrow> (Reply (Json 404 (JObj [(''error'', JStr ''not found'')])), w)
         | r # _ \<Rightarrow> (Reply (Json 200 (api_row_json r)), w)))"
  by (auto simp: api_reports_get_def getConnection_def catch_finally_def
        release_acquire split: list.splits)

section \<open>Submissions\<close>

lemma genCaseId_sample: "genCaseId 2025 123 = ''REP2025000123''"
  by code_simp

lemma ci_eq_refl: "ci_eq e a a"
  by (simp add: ci_eq_def)

lemma matches_same: "matches e c (Some c)"
  by (simp add: matches_def ci_eq_refl)

lemma insert_params_Inr:
  assumes "insert_report e now (insert_params cid file b) w = Inr w'"
  shows "\<exists>v2 v3 v4 v6 v7 v8 l t.
      param_value (insert_expr e) (or_null (b ''citizen_name'')) = Inr v2
    \<and> param_value (insert_expr e) (or_null (b ''email'')) = Inr v3
    \<and> param_value (insert_expr e) (or_null (b ''phone'')) = Inr v4
    \<and> param_value (insert_expr e) (b ''location'') = Inr v6
    \<and> param_value (insert_expr e) (or_null (b ''description'')) = Inr v7
    \<and> param_value (insert_expr e) (b ''issue_type'') = Inr v8
    \<and> text_of_lit v6 = Some l \<and> text_of_lit v8 = Some t
    \<and> (\<forall>r \<in> set (reports w). \<not> matches e cid (case_id r))
    \<and> w' = w\<lparr>reports := reports w @
               [\<lparr>report_id = reports_auto_inc w, case_id = Some cid,
                 citizen_name = text_of_lit v2, email = text_of_lit v3, phone = text_of_lit v4,
                 image_path = (case file of None \<Rightarrow> None | Some fn \<Rightarrow> Some (''/uploads/'' @ fn)),
                 location = l, description = text_of_lit v7, issue_type = t,
                 status = Some NEW, created_at = now\<rparr>],
             reports_auto_inc := Suc (reports_auto_inc w)\<rparr>"
proof -
  from insert_report_Inr [OF assms] obtain vs where
    c: "collect (map (param_value (insert_expr e)) (insert_params cid file b)) = Inr vs"
    and s: "store_row e now vs w = Inr w'"
    by blast
  from c obtain v2 v3 v4 v5 v6 v7 v8 where
    vs: "vs = [SqlText cid, v2, v3, v4, v5, v6, v7, v8]"
    and p: "param_value (insert_expr e) (or_null (b ''citizen_name'')) = Inr v2"
      "param_value (insert_expr e) (or_null (b ''email'')) = Inr v3"
      "param_value (insert_expr e) (or_null (b ''phone'')) = Inr v4"
      "param_value (insert_expr e) (b ''location'') = Inr v6"
      "param_value (insert_expr e) (or_null (b ''description'')) = Inr v7"
      "param_value (insert_expr e) (b ''issue_type'') = Inr v8"
    and v5: "text_of_lit v5 = (case file of None \<Rightarrow> None | Some fn \<Rightarrow> Some (''/uploads/'' @ fn))"
    by (auto simp: insert_params_def split: sum.splits option.splits)
  from store_row_Inr [OF s] show ?thesis
    unfolding vs using p v5 by auto
qed

lemma insert_report_dup:
  assumes "Some c \<in> set (map case_id (reports w))"
  shows "\<exists>err. insert_report e now (insert_params c file b) w = Inl err"
proof (cases "insert_report e now (insert_params c file b) w")
  case (Inl err)
  then show ?thesis by blast
next
  case (Inr w')
  from insert_params_Inr [OF Inr] have "\<forall>r \<in> set (reports w). \<not> matches e c (case_id r)"
    by blast
  moreover from assms obtain r where "r \<in> set (reports w)" "case_id r = Some c" by auto
  ultimately show ?thesis using matches_same [of e c] by auto
qed


lemma upload_single_None: "upload_single e None = Inr None"
  by (simp add: upload_single_def)

lemma sample_submission:
  "handle sample_env ''c1'' (POST_api_reports None sample_body) sample_world
     = (Reply (Json 200 (JObj [(''ok'', JBool True), (''case_id'', JStr ''REP2025000123'')])),
        sample_world1)"
  by (simp add: api_reports_post_flat upload_single_None sample_env_def sample_world_def
      sample_world1_def sample_body_def sample_report_def genCaseId_sample insert_report_def
      insert_params_def and_then_def store_row_def connectionLimit_def or_null_def fits_def)

text \<open>
  Claim C1, as the code has it. A submission whose freshly generated case identifier collides
  with an existing report's case_id is not retried: the identifier is generated once, the
  insert's uniqueness violation is caught like any other error, the answer is
  \<open>500 {ok: false, error: "failed"}\<close> (\<open>500 Failed to submit report.\<close> on the form route)
  and the state is left as it was.
\<close>

theorem collision_not_retried:
  assumes "Some (genCaseId (year e) (rnd e)) \<in> set (map case_id (reports w))"
    and "truthy (b ''location'')" and "truthy (b ''issue_type'')"
    and "upload_single e photo = Inr file"
    and "\<not> pool_error e" and "held w < connectionLimit"
  shows "handle e sid (POST_api_reports photo b) w
           = (Reply (Json 500 (JObj [(''ok'', JBool False), (''error'', JStr ''failed'')])), w)
       \<and> handle e sid (POST_report photo b) w
           = (Reply (Send 500 ''Failed to submit report.''), w)"
proof -
  obtain err where "insert_report e (clock e)
      (insert_params (genCaseId (year e) (rnd e)) file b) w = Inl err"
    using insert_report_dup [OF assms(1)] by blast
  then show ?thesis using assms(2-6) by (simp add: api_reports_post_flat report_post_flat)
qed

theorem collision_not_retried_witness:
  "Some (genCaseId (year sample_env) (rnd sample_env)) \<in> set (map case_id (reports sample_world1))
   \<and> truthy (sample_body ''location'') \<and> truthy (sample_body ''issue_type'')
   \<and> upload_single sample_env None = Inr None
   \<and> \<not> pool_error sample_env \<and> held sample_world1 < connectionLimit
   \<and> handle sample_env ''c2'' (POST_api_reports None sample_body) sample_world1
        = (Reply (Json 500 (JObj [(''ok'', JBool False), (''error'', JStr ''failed'')])),
           sample_world1)
   \<and> handle sample_env ''c2'' (POST_report None sample_body) sample_world1
        = (Reply (Send 500 ''Failed to submit report.''), sample_world1)"
proof -
  have a: "Some (genCaseId (year sample_env) (rnd sample_env))
             \<in> set (map case_id (reports sample_world1))"
    by (simp add: sample_env_def sample_world1_def sample_report_def genCaseId_sample)
  have b: "truthy (sample_body ''location'')" and c: "truthy (sample_body ''issue_type'')"
    by (simp_all add: sample_body_def)
  have d: "upload_single sample_env None = Inr None" by (simp add: upload_single_def)
  have f: "\<not> pool_error sample_env" by (simp add: sample_env_def)
  have g: "held sample_world1 < connectionLimit"
    by (simp add: sample_world1_def sample_world_def connectionLimit_def)
  show ?thesis using a b c d f g collision_not_retried [OF a b c d f g, of "''c2''"] by simp
qed

lemma sample_collision:
  "handle sample_env ''c2'' (POST_api_reports None sample_body) sample_world1
     = (Reply (Json 500 (JObj [(''ok'', JBool False), (''error'', JStr ''failed'')])),
        sample_world1)"
  by (simp add: api_reports_post_flat upload_single_None sample_env_def sample_world_def
      sample_world1_def sample_body_def sample_report_def genCaseId_sample insert_report_def
      insert_params_def and_then_def store_row_def connectionLimit_def or_null_def fits_def
      matches_def ci_eq_def)

text \<open>
  The claim as stated fails: of two submissions that draw the same suffix in the same year,
  the first is stored and the second is answered with the 500.
\<close>

theorem retry_counterexample:
  "handle sample_env ''c1'' (POST_api_reports None sample_body) sample_world
     = (Reply (Json 200 (JObj [(''ok'', JBool True), (''case_id'', JStr ''REP2025000123'')])),
        sample_world1)
   \<and> handle sample_env ''c2'' (POST_api_reports None sample_body) sample_world1
     = (Reply (Json 500 (JObj [(''ok'', JBool False), (''error'', JStr ''failed'')])),
        sample_world1)"
  using sample_submission sample_collision by simp






lemma sample_photo_accepted:
  "upload_single sample_env (Some sample_photo) = Inr (Some ''1700000000000-42.jpg'')"
  by (simp add: sample_photo_def upload_single_Some ext_jpg filename_sample)

lemma full_submission:
  "handle sample_env ''c1'' (POST_api_reports (Some sample_photo) full_body) sample_world
     = (Reply (Json 200 (JObj [(''ok'', JBool True), (''case_id'', JStr ''REP2025000123'')])),
        sample_world\<lparr>reports := [full_report], reports_auto_inc := 2\<rparr>)"
  by (simp add: api_reports_post_flat sample_photo_accepted)
     (simp add: sample_env_def sample_world_def full_body_def full_report_def genCaseId_sample
        insert_report_def insert_params_def and_then_def store_row_def connectionLimit_def
        or_null_def fits_def)












section \<open>Required fields\<close>





section \<open>Tracking lookups\<close>

lemma digit_cases:
  assumes "is_digit c"
  obtains "c = CHR ''0''" | "c = CHR ''1''" | "c = CHR ''2''" | "c = CHR ''3''" | "c = CHR ''4''"
    | "c = CHR ''5''" | "c = CHR ''6''" | "c = CHR ''7''" | "c = CHR ''8''" | "c = CHR ''9''"
  using assms unfolding is_digit_def by auto

lemma lower_digit: "is_digit c \<Longrightarrow> lower_char c = c"
  by (erule digit_cases) (simp_all add: lower_char_def)

lemma lower_digits: "list_all is_digit d \<Longrightarrow> toLowerCase d = d"
  by (induction d) (simp_all add: toLowerCase_def lower_digit)

lemma plain_digit: "is_digit c \<Longrightarrow> plain_char c"
  by (erule digit_cases) (simp_all add: plain_char_def)

lemma plain_digits: "list_all is_digit d \<Longrightarrow> plain d"
  by (induction d) (simp_all add: plain_def plain_digit)

lemma pattern_split:
  assumes "matches_case_pattern s"
  shows "\<exists>d. s = ''REP'' @ d \<and> list_all is_digit d"
proof -
  from assms have t: "take 3 s = ''REP''" and d: "list_all is_digit (drop 3 s)"
    by (simp_all add: matches_case_pattern_def)
  have "take 3 s @ drop 3 s = s" by (rule append_take_drop_id)
  then have "s = ''REP'' @ drop 3 s" unfolding t by (rule sym)
  then show ?thesis using d by blast
qed

lemma plain_sample: "plain ''rep2025000123''" "plain ''REP2025000123''" "plain ''closed''"
  by (simp_all add: plain_def plain_char_def)

lemma pattern_plain: "matches_case_pattern s \<Longrightarrow> plain s"
proof -
  assume "matches_case_pattern s"
  then obtain d where s: "s = ''REP'' @ d" and d: "list_all is_digit d"
    using pattern_split by blast
  have "plain d" using d by (rule plain_digits)
  moreover have "plain ''REP''" by (simp add: plain_def plain_char_def)
  ultimately show ?thesis unfolding s by (simp add: plain_def)
qed

lemma pattern_lower:
  assumes "matches_case_pattern a" and "matches_case_pattern b"
  shows "(toLowerCase a = toLowerCase b) = (a = b)"
proof -
  obtain da where a: "a = ''REP'' @ da" "list_all is_digit da"
    using pattern_split [OF assms(1)] by blast
  obtain db where b: "b = ''REP'' @ db" "list_all is_digit db"
    using pattern_split [OF assms(2)] by blast
  have r: "toLowerCase ''REP'' = ''rep''" by (simp add: toLowerCase_def lower_char_def)
  have ap: "\<And>x y. toLowerCase (x @ y) = toLowerCase x @ toLowerCase y"
    by (simp add: toLowerCase_def)
  have "toLowerCase a = ''rep'' @ da"
    unfolding a(1) ap r using lower_digits [OF a(2)] by simp
  moreover have "toLowerCase b = ''rep'' @ db"
    unfolding b(1) ap r using lower_digits [OF b(2)] by simp
  ultimately show ?thesis by (simp add: a(1) b(1))
qed

lemma pattern_ci_eq:
  "matches_case_pattern a \<Longrightarrow> matches_case_pattern b \<Longrightarrow> ci_eq e a b = (a = b)"
  by (auto simp: ci_eq_def pattern_plain pattern_lower)

lemma status_json_cases:
  "status_json v =
     (case v of
        None \<Rightarrow> JNull
      | Some st \<Rightarrow> JStr (case st of NEW \<Rightarrow> ''NEW'' | UNDER_REVIEW \<Rightarrow> ''UNDER_REVIEW''
          | VERIFIED \<Rightarrow> ''VERIFIED'' | ACTION_TAKEN \<Rightarrow> ''ACTION_TAKEN'' | CLOSED \<Rightarrow> ''CLOSED''))"
  by (simp add: status_json_def split: option.splits status.splits)

lemma api_reports_get_found:
  assumes "\<not> pool_error e" and "held w < connectionLimit"
    and "\<not> db_fault e 0" and "\<not> db_fault e 1"
    and "\<exists>r \<in> set (reports w). matches e c (case_id r)"
  shows "\<exists>r \<in> set (reports w). \<exists>k. case_id r = Some k \<and> ci_eq e k c
           \<and> api_reports_get e c w = (Reply (Json 200 (JObj
                [(''case_id'', JStr k),
                 (''status'', (case status r of
                    None \<Rightarrow> JNull
                  | Some st \<Rightarrow> JStr (case st of NEW \<Rightarrow> ''NEW''
                      | UNDER_REVIEW \<Rightarrow> ''UNDER_REVIEW'' | VERIFIED \<Rightarrow> ''VERIFIED''
                      | ACTION_TAKEN \<Rightarrow> ''ACTION_TAKEN'' | CLOSED \<Rightarrow> ''CLOSED''))),
                 (''issue_type'', JStr (issue_type r)), (''location'', JStr (location r)),
                 (''created_at'', JNum (int (created_at r)))])), w)"
proof (cases "select_by_case_id e c (reports w)")
  case Nil
  then show ?thesis using assms(5) by (auto simp: select_by_case_id_def filter_empty_conv)
next
  case (Cons r rs)
  then have "r \<in> set (select_by_case_id e c (reports w))" by simp
  then have r: "r \<in> set (reports w)" "matches e c (case_id r)"
    by (auto simp: select_by_case_id_def)
  then obtain k where k: "case_id r = Some k" "ci_eq e k c"
    by (auto simp: matches_def split: option.splits)
  have "api_reports_get e c w = (Reply (Json 200 (api_row_json r)), w)"
    using assms(1-4) Cons by (simp add: api_reports_get_flat)
  then show ?thesis using r(1) k
    by (auto simp: api_row_json_def opt_json_def status_json_cases intro!: bexI [of _ r])
qed

lemma api_reports_get_missing:
  assumes "\<not> pool_error e" and "held w < connectionLimit"
    and "\<not> db_fault e 0" and "\<not> db_fault e 1"
    and "\<not> (\<exists>r \<in> set (reports w). matches e c (case_id r))"
  shows "api_reports_get e c w = (Reply (Json 404 (JObj [(''error'', JStr ''not found'')])), w)"
proof -
  have "select_by_case_id e c (reports w) = []"
    using assms(5) by (auto simp: select_by_case_id_def filter_empty_conv)
  then show ?thesis using assms(1-4) by (simp add: api_reports_get_flat)
qed

lemma pattern_matches:
  assumes "matches_case_pattern c"
    and "list_all (\<lambda>r. case case_id r of None \<Rightarrow> True | Some k \<Rightarrow> matches_case_pattern k) rows"
    and "r \<in> set rows"
  shows "matches e c (case_id r) = (case_id r = Some c)"
proof (cases "case_id r")
  case None
  then show ?thesis by (simp add: matches_def)
next
  case (Some k)
  then have "matches_case_pattern k" using assms(2,3) by (auto simp: list_all_iff)
  then show ?thesis using Some assms(1) by (auto simp: matches_def pattern_ci_eq)
qed

text \<open>
  Claim C5. For every request to \<open>GET /api/reports/:caseId\<close> that gets a connection from a
  working store: if a report with that case identifier exists, the answer is 200 with
  exactly the fields case_id, status, issue_type, location and created_at of such a report,
  the status under its name; if none exists, the answer is \<open>404 {error: "not found"}\<close>, not
  a failure. The state is left as it was. Whether a report has the identifier is decided by
  the store's comparison, which ignores letter case, and the answer carries the identifier as
  it is stored. For an identifier of the form \<open>REP\d{4}\d{6}\<close> and stored identifiers of that
  form the comparison is equality.
\<close>

theorem api_lookup:
  assumes "\<not> pool_error e" and "held w < connectionLimit"
    and "\<not> db_fault e 0" and "\<not> db_fault e 1"
  shows "snd (handle e sid (GET_api_reports_caseId c) w) = w
     \<and> (if \<exists>r \<in> set (reports w). matches e c (case_id r)
         then \<exists>r \<in> set (reports w). \<exists>k. case_id r = Some k \<and> ci_eq e k c
                \<and> fst (handle e sid (GET_api_reports_caseId c) w) =
                    Reply (Json 200 (JObj
                      [(''case_id'', JStr k),
                       (''status'', (case status r of
                          None \<Rightarrow> JNull
                        | Some st \<Rightarrow> JStr (case st of NEW \<Rightarrow> ''NEW''
                            | UNDER_REVIEW \<Rightarrow> ''UNDER_REVIEW'' | VERIFIED \<Rightarrow> ''VERIFIED''
                            | ACTION_TAKEN \<Rightarrow> ''ACTION_TAKEN'' | CLOSED \<Rightarrow> ''CLOSED''))),
                       (''issue_type'', JStr (issue_type r)), (''location'', JStr (location r)),
                       (''created_at'', JNum (int (created_at r)))]))
         else fst (handle e sid (GET_api_reports_caseId c) w) =
                Reply (Json 404 (JObj [(''error'', JStr ''not found'')])))
     \<and> ((\<exists>r \<in> set (reports w). case_id r = Some c) \<longrightarrow>
          (\<exists>j. fst (handle e sid (GET_api_reports_caseId c) w) = Reply (Json 200 j)))
     \<and> (matches_case_pattern c
          \<and> list_all (\<lambda>r. case case_id r of None \<Rightarrow> True | Some k \<Rightarrow> matches_case_pattern k)
               (reports w) \<longrightarrow>
          (if \<exists>r \<in> set (reports w). case_id r = Some c
           then \<exists>r \<in> set (reports w). case_id r = Some c
                \<and> fst (handle e sid (GET_api_reports_caseId c) w) =
                    Reply (Json 200 (JObj
                      [(''case_id'', JStr c),
                       (''status'', (case status r of
                          None \<Rightarrow> JNull
                        | Some st \<Rightarrow> JStr (case st of NEW \<Rightarrow> ''NEW''
                            | UNDER_REVIEW \<Rightarrow> ''UNDER_REVIEW'' | VERIFIED \<Rightarrow> ''VERIFIED''
                            | ACTION_TAKEN \<Rightarrow> ''ACTION_TAKEN'' | CLOSED \<Rightarrow> ''CLOSED''))),
                       (''issue_type'', JStr (issue_type r)), (''location'', JStr (location r)),
                       (''created_at'', JNum (int (created_at r)))]))
           else fst (handle e sid (GET_api_reports_caseId c) w) =
                Reply (Json 404 (JObj [(''error'', JStr ''not found'')]))))"
proof (intro conjI impI)
  show "snd (handle e sid (GET_api_reports_caseId c) w) = w"
    using assms by (simp add: api_reports_get_flat split: list.splits)
next
  show "if \<exists>r \<in> set (reports w). matches e c (case_id r)
         then \<exists>r \<in> set (reports w). \<exists>k. case_id r = Some k \<and> ci_eq e k c
                \<and> fst (handle e sid (GET_api_reports_caseId c) w) =
                    Reply (Json 200 (JObj
                      [(''case_id'', JStr k),
                       (''status'', (case status r of
                          None \<Rightarrow> JNull
                        | Some st \<Rightarrow> JStr (case st of NEW \<Rightarrow> ''NEW''
                            | UNDER_REVIEW \<Rightarrow> ''UNDER_REVIEW'' | VERIFIED \<Rightarrow> ''VERIFIED''
                            | ACTION_TAKEN \<Rightarrow> ''ACTION_TAKEN'' | CLOSED \<Rightarrow> ''CLOSED''))),
                       (''issue_type'', JStr (issue_type r)), (''location'', JStr (location r)),
                       (''created_at'', JNum (int (created_at r)))]))
         else fst (handle e sid (GET_api_reports_caseId c) w) =
                Reply (Json 404 (JObj [(''error'', JStr ''not found'')]))"
  proof (cases "\<exists>r \<in> set (reports w). matches e c (case_id r)")
    case True
    from api_reports_get_found [OF assms True] show ?thesis using True by fastforce
  next
    case False
    from api_reports_get_missing [OF assms False] show ?thesis using False by simp
  qed
next
  assume "\<exists>r \<in> set (reports w). case_id r = Some c"
  then obtain x where "x \<in> set (reports w)" "case_id x = Some c" by blast
  then have "\<exists>r \<in> set (reports w). matches e c (case_id r)"
    using matches_same [of e c] by (intro bexI [of _ x]) simp_all
  from api_reports_get_found [OF assms this]
  show "\<exists>j. fst (handle e sid (GET_api_reports_caseId c) w) = Reply (Json 200 j)"
    by fastforce
next
  assume p: "matches_case_pattern c
          \<and> list_all (\<lambda>r. case case_id r of None \<Rightarrow> True | Some k \<Rightarrow> matches_case_pattern k)
               (reports w)"
  then have eq: "\<And>r. r \<in> set (reports w) \<Longrightarrow> matches e c (case_id r) = (case_id r = Some c)"
    using pattern_matches by blast
  show "if \<exists>r \<in> set (reports w). case_id r = Some c
           then \<exists>r \<in> set (reports w). case_id r = Some c
                \<and> fst (handle e sid (GET_api_reports_caseId c) w) =
                    Reply (Json 200 (JObj
                      [(''case_id'', JStr c),
                       (''status'', (case status r of
                          None \<Rightarrow> JNull
                        | Some st \<Rightarrow> JStr (case st of NEW \<Rightarrow> ''NEW''
                            | UNDER_REVIEW \<Rightarrow> ''UNDER_REVIEW'' | VERIFIED \<Rightarrow> ''VERIFIED''
                            | ACTION_TAKEN \<Rightarrow> ''ACTION_TAKEN'' | CLOSED \<Rightarrow> ''CLOSED''))),
                       (''issue_type'', JStr (issue_type r)), (''location'', JStr (location r)),
                       (''created_at'', JNum (int (created_at r)))]))
           else fst (handle e sid (GET_api_reports_caseId c) w) =
                Reply (Json 404 (JObj [(''error'', JStr ''not found'')]))"
  proof (cases "\<exists>r \<in> set (reports w). case_id r = Some c")
    case True
    then have m: "\<exists>r \<in> set (reports w). matches e c (case_id r)" using eq by blast
    from api_reports_get_found [OF assms m] obtain r k where
      r: "r \<in> set (reports w)" "case_id r = Some k" "ci_eq e k c"
      and g: "api_reports_get e c w = (Reply (Json 200 (JObj
                [(''case_id'', JStr k),
                 (''status'', (case status r of
                    None \<Rightarrow> JNull
                  | Some st \<Rightarrow> JStr (case st of NEW \<Rightarrow> ''NEW''
                      | UNDER_REVIEW \<Rightarrow> ''UNDER_REVIEW'' | VERIFIED \<Rightarrow> ''VERIFIED''
                      | ACTION_TAKEN \<Rightarrow> ''ACTION_TAKEN'' | CLOSED \<Rightarrow> ''CLOSED''))),
                 (''issue_type'', JStr (issue_type r)), (''location'', JStr (location r)),
                 (''created_at'', JNum (int (created_at r)))])), w)"
      by blast
    have "matches e c (case_id r)" using r(2,3) by (simp add: matches_def)
    then have "k = c" using eq [OF r(1)] r(2) by simp
    then show ?thesis using True r g by (auto intro!: bexI [of _ r])
  next
    case False
    then have "\<not> (\<exists>r \<in> set (reports w). matches e c (case_id r))" using eq by blast
    from api_reports_get_missing [OF assms this] show ?thesis using False by simp
  qed
qed

lemma variant_matches:
  "matches sample_env ''rep2025000123'' (Some ''REP2025000123'')"
  "\<not> matches sample_env ''REP2025999999'' (Some ''REP2025000123'')"
  by (simp_all add: matches_def ci_eq_def plain_def plain_char_def toLowerCase_def
      lower_char_def sample_env_def)

theorem api_lookup_witness:
  "\<not> pool_error sample_env \<and> held verified_world < connectionLimit
   \<and> \<not> db_fault sample_env 0 \<and> \<not> db_fault sample_env 1
   \<and> handle sample_env ''c1'' (GET_api_reports_caseId ''rep2025000123'') verified_world
       = (Reply (Json 200 (JObj
            [(''case_id'', JStr ''REP2025000123''), (''status'', JStr ''VERIFIED''),
             (''issue_type'', JStr ''pothole''), (''location'', JStr ''Main St & 5th''),
             (''created_at'', JNum 1700000000)])), verified_world)
   \<and> handle sample_env ''c1'' (GET_api_reports_caseId ''REP2025999999'') verified_world
       = (Reply (Json 404 (JObj [(''error'', JStr ''not found'')])), verified_world)"
proof -
  have a: "\<not> pool_error sample_env" and b: "held verified_world < connectionLimit"
    and c: "\<not> db_fault sample_env 0" and d: "\<not> db_fault sample_env 1"
    by (simp_all add: sample_env_def verified_world_def sample_world_def connectionLimit_def)
  have rows: "reports verified_world = [sample_report\<lparr>status := Some VERIFIED\<rparr>]"
    by (simp add: verified_world_def)
  have cid: "case_id (sample_report\<lparr>status := Some VERIFIED\<rparr>) = Some ''REP2025000123''"
    by (simp add: sample_report_def)
  have found: "fst (handle sample_env ''c1'' (GET_api_reports_caseId ''rep2025000123'')
                 verified_world)
       = Reply (Json 200 (JObj
            [(''case_id'', JStr ''REP2025000123''), (''status'', JStr ''VERIFIED''),
             (''issue_type'', JStr ''pothole''), (''location'', JStr ''Main St & 5th''),
             (''created_at'', JNum 1700000000)]))"
    using api_lookup [OF a b c d, where sid = "''c1''" and c = "''rep2025000123''"]
    unfolding rows by (simp add: cid variant_matches) (simp add: sample_report_def)
  have missing: "fst (handle sample_env ''c1'' (GET_api_reports_caseId ''REP2025999999'')
                 verified_world)
       = Reply (Json 404 (JObj [(''error'', JStr ''not found'')]))"
    using api_lookup [OF a b c d, where sid = "''c1''" and c = "''REP2025999999''"]
    unfolding rows by (simp add: cid variant_matches)
  have same: "snd (handle sample_env ''c1'' (GET_api_reports_caseId ''rep2025000123'')
                 verified_world) = verified_world"
       "snd (handle sample_env ''c1'' (GET_api_reports_caseId ''REP2025999999'')
                 verified_world) = verified_world"
    using api_lookup [OF a b c d] by blast+
  show ?thesis using a b c d found missing same by (simp add: prod_eq_iff)
qed

section \<open>Status updates\<close>

lemma update_rows_none:
  "\<not> (\<exists>r \<in> set rows. p r) \<Longrightarrow> update_rows f p rows = Inr rows"
  by (induction rows) simp_all

lemma update_rows_all:
  "(\<And>r. f r = Inr (g r)) \<Longrightarrow>
   update_rows f p rows = Inr (map (\<lambda>r. if p r then g r else r) rows)"
  by (induction rows) simp_all

lemma update_rows_fail:
  assumes "\<And>r. f r = Inl err"
  shows "\<exists>r \<in> set rows. p r \<Longrightarrow> update_rows f p rows = Inl err"
proof (induction rows)
  case Nil
  then show ?case by simp
next
  case (Cons a rows)
  show ?case
  proof (cases "p a")
    case True
    then show ?thesis by (simp add: assms)
  next
    case False
    then have "\<exists>r \<in> set rows. p r" using Cons.prems by simp
    then have "update_rows f p rows = Inl err" by (rule Cons.IH)
    then show ?thesis using False by simp
  qed
qed

lemma set_row_lit:
  "set_row e rows (Lit l) [] r =
     (case enum_of_lit e l of Inl err \<Rightarrow> Inl err | Inr st \<Rightarrow> Inr (r\<lparr>status := st\<rparr>))"
  by (simp add: set_row_def and_then_def split: sum.splits)

lemma update_status_lit:
  assumes "escape v = [Lit l]" and "is_numeral ids"
  shows "update_status e v ids w =
     (case enum_of_lit e l of
        Inl err \<Rightarrow>
          if \<exists>r \<in> set (reports w). report_id r = digits_val ids then Inl err else Inr w
      | Inr st \<Rightarrow>
          Inr (w\<lparr>reports := map (\<lambda>r. if report_id r = digits_val ids then r\<lparr>status := st\<rparr>
                                       else r) (reports w)\<rparr>))"
proof (cases "enum_of_lit e l")
  case (Inl err)
  have f: "\<And>r. set_row e (reports w) (Lit l) [] r = Inl err"
    by (simp add: set_row_lit Inl)
  show ?thesis
  proof (cases "\<exists>r \<in> set (reports w). report_id r = digits_val ids")
    case True
    from update_rows_fail [of "set_row e (reports w) (Lit l) []" err "reports w"
        "\<lambda>r. report_id r = digits_val ids", OF f True]
    show ?thesis using assms True Inl by (simp add: update_status_def id_matches_def)
  next
    case False
    from update_rows_none [of "reports w" "\<lambda>r. report_id r = digits_val ids", OF False]
    show ?thesis using assms False Inl by (simp add: update_status_def id_matches_def)
  qed
next
  case (Inr st)
  have f: "\<And>r. set_row e (reports w) (Lit l) [] r = Inr (r\<lparr>status := st\<rparr>)"
    by (simp add: set_row_lit Inr)
  from update_rows_all [of "set_row e (reports w) (Lit l) []" "\<lambda>r. r\<lparr>status := st\<rparr>"
      "\<lambda>r. report_id r = digits_val ids" "reports w", OF f]
  show ?thesis using assms Inr by (simp add: update_status_def id_matches_def)
qed













lemma officer_request:
  "sessions sample_world1 ''s1'' \<noteq> None" "\<not> pool_error sample_env"
  "held sample_world1 < connectionLimit" "\<not> db_fault sample_env 0" "\<not> db_fault sample_env 1"
  by (simp_all add: sample_world1_def sample_world_def sample_env_def connectionLimit_def)

lemma sample_ids:
  "is_numeral ''1''" "is_numeral ''7''" "digits_val ''1'' = 1" "digits_val ''7'' = 7"
  by (simp_all add: is_numeral_def is_digit_def digits_val_def digit_val_def)

lemma sample_rows:
  "reports sample_world1 = [sample_report]" "report_id sample_report = 1"
  by (simp_all add: sample_world1_def sample_report_def)


lemma status_body_status: "status_body v ''status'' = v"
  by (simp add: status_body_def)





section \<open>The frame of a status update\<close>

lemma kept_map_status:
  "kept rows (map (\<lambda>r. if p r then r\<lparr>status := st\<rparr> else r) rows)"
  by (simp add: kept_def list_all2_conv_all_nth same_but_status_def)

lemma scalar_status_frame:
  assumes "escape v = [Lit l]" and "is_numeral ids" and "update_status e v ids w = Inr w'"
  shows "kept (reports w) (reports w')"
proof (cases "enum_of_lit e l")
  case (Inl err)
  then have "w' = w" using assms(3) unfolding update_status_lit [OF assms(1,2)]
    by (simp split: if_splits)
  then show ?thesis by (simp add: kept_refl)
next
  case (Inr st)
  then have "reports w' = map (\<lambda>r. if report_id r = digits_val ids then r\<lparr>status := st\<rparr>
                                    else r) (reports w)"
    using assms(3) unfolding update_status_lit [OF assms(1,2)] by auto
  then show ?thesis by (simp add: kept_map_status)
qed

lemma injected_items:
  "escape (Obj [(''citizen_name'', Str ''x''), (''location'', Str ''Elsewhere'')])
     = [KeyEq ''citizen_name'' (Some (Lit (SqlText ''x''))),
        KeyEq ''location'' (Some (Lit (SqlText ''Elsewhere'')))]"
  by (simp add: escape_def pair_items_def value_items_def)

lemma sample_columns:
  "column_of_key e ''citizen_name'' = Some C_citizen_name"
  "column_of_key e ''location'' = Some C_location"
  by (simp_all add: column_of_key_def column_names_def toLowerCase_def lower_char_def)

lemma injected_row:
  "set_row sample_env rows (KeyEq ''citizen_name'' (Some (Lit (SqlText ''x''))))
     [KeyEq ''location'' (Some (Lit (SqlText ''Elsewhere'')))] sample_report
     = Inr (sample_report\<lparr>status := None, location := ''Elsewhere''\<rparr>)"
  by (simp add: set_row_def and_then_def compare_column_def sample_columns required_text_def
      sample_report_def)

lemma injected_update:
  "update_status sample_env
     (Obj [(''citizen_name'', Str ''x''), (''location'', Str ''Elsewhere'')]) ''1'' sample_world1
     = Inr (sample_world1\<lparr>reports :=
         [sample_report\<lparr>status := None, location := ''Elsewhere''\<rparr>]\<rparr>)"
  unfolding update_status_def injected_items
  by (simp add: sample_columns sample_ids sample_rows id_matches_def injected_row)

text \<open>
  Claim C8 fails on the code. The handler passes \<open>req.body.status\<close> to the statement as it
  arrives, and the body parsers deliver objects. For the object
  \<open>{citizen_name: "x", location: "Elsewhere"}\<close> the statement reads
  \<open>UPDATE reports SET status=citizen_name = 'x', location = 'Elsewhere' WHERE id='1'\<close>: on
  report 1, whose citizen_name is \<open>NULL\<close>, it sets status to \<open>NULL\<close> and location to
  \<open>Elsewhere\<close>.
\<close>

theorem status_update_writes_location:
  "handle sample_env ''s1''
     (POST_admin_case_id_status ''1''
        (status_body (Obj [(''citizen_name'', Str ''x''), (''location'', Str ''Elsewhere'')])))
     sample_world1
     = (Reply (Redirect ''/admin/case/1''),
        sample_world1\<lparr>reports :=
          [sample_report\<lparr>status := None, location := ''Elsewhere''\<rparr>]\<rparr>)
   \<and> location sample_report = ''Main St & 5th''
   \<and> \<not> kept (reports sample_world1)
        (reports (snd (handle sample_env ''s1''
           (POST_admin_case_id_status ''1''
              (status_body (Obj [(''citizen_name'', Str ''x''), (''location'', Str ''Elsewhere'')])))
           sample_world1)))"
proof -
  have h: "handle sample_env ''s1''
     (POST_admin_case_id_status ''1''
        (status_body (Obj [(''citizen_name'', Str ''x''), (''location'', Str ''Elsewhere'')])))
     sample_world1
     = (Reply (Redirect ''/admin/case/1''),
        sample_world1\<lparr>reports :=
          [sample_report\<lparr>status := None, location := ''Elsewhere''\<rparr>]\<rparr>)"
    using officer_request
    by (simp add: ensureAuth_def admin_case_status_post_flat status_body_status injected_update)
  have l: "location sample_report = ''Main St & 5th''" by (simp add: sample_report_def)
  have "\<not> kept (reports sample_world1)
        [sample_report\<lparr>status := None, location := ''Elsewhere''\<rparr>]"
    by (simp add: kept_def same_but_status_def sample_rows l)
  then show ?thesis unfolding h using h l by simp
qed

end
